theory Spec2Isabelle
  imports Main "HOL-Library.Sublist" "HOL-Library.Word"
begin

section \<open>Vulnerability statuses (package clair)\<close>

text \<open>
  \<^verbatim>\<open>type VulnerabilityStatus string\<close>: a status is any Go string; eleven of them are
  named by constants.
\<close>

type_synonym VulnerabilityStatus = string

definition ErrorVulnerabilityStatus :: VulnerabilityStatus where
  "ErrorVulnerabilityStatus = ''Error''"

definition PendingVulnerabilityStatus :: VulnerabilityStatus where
  "PendingVulnerabilityStatus = ''Pending''"

definition UnsupportedVulnerabilityStatus :: VulnerabilityStatus where
  "UnsupportedVulnerabilityStatus = ''Unsupported''"

definition CleanSeverity :: VulnerabilityStatus where
  "CleanSeverity = ''Clean''"

definition UnknownSeverity :: VulnerabilityStatus where
  "UnknownSeverity = ''Unknown''"

definition NegligibleSeverity :: VulnerabilityStatus where
  "NegligibleSeverity = ''Negligible''"

definition LowSeverity :: VulnerabilityStatus where
  "LowSeverity = ''Low''"

definition MediumSeverity :: VulnerabilityStatus where
  "MediumSeverity = ''Medium''"

definition HighSeverity :: VulnerabilityStatus where
  "HighSeverity = ''High''"

definition CriticalSeverity :: VulnerabilityStatus where
  "CriticalSeverity = ''Critical''"

definition Defcon1Severity :: VulnerabilityStatus where
  "Defcon1Severity = ''Defcon1''"

text \<open>The map literal \<^verbatim>\<open>sevMap\<close>, in the order of the source.\<close>

definition sevMap :: "(VulnerabilityStatus \<times> nat) list" where
  "sevMap =
    [(ErrorVulnerabilityStatus, 0),
     (PendingVulnerabilityStatus, 0),
     (UnsupportedVulnerabilityStatus, 0),
     (CleanSeverity, 1),
     (UnknownSeverity, 2),
     (NegligibleSeverity, 3),
     (LowSeverity, 4),
     (MediumSeverity, 5),
     (HighSeverity, 6),
     (CriticalSeverity, 7),
     (Defcon1Severity, 8)]"

text \<open>\<^verbatim>\<open>sevMap[s]\<close>: indexing a Go map with a missing key gives the zero value.\<close>

definition sevMap_at :: "VulnerabilityStatus \<Rightarrow> nat" where
  "sevMap_at s = (case map_of sevMap s of None \<Rightarrow> 0 | Some n \<Rightarrow> n)"

definition HasReport :: "VulnerabilityStatus \<Rightarrow> bool" where
  "HasReport s = (sevMap_at s > 0)"

text \<open>
  The first loop of \<^verbatim>\<open>MergeVulnerabilityStatuses\<close>. Its state is the map
  \<^verbatim>\<open>hasSpecialSeverity\<close> (a missing key reads as false) and \<^verbatim>\<open>result\<close>.
\<close>

fun merge_scan ::
  "VulnerabilityStatus list \<Rightarrow> (VulnerabilityStatus \<Rightarrow> bool) \<times> VulnerabilityStatus
    \<Rightarrow> (VulnerabilityStatus \<Rightarrow> bool) \<times> VulnerabilityStatus" where
  "merge_scan [] st = st"
| "merge_scan (s # sevs) (hasSpecialSeverity, result) =
     merge_scan sevs
       (if sevMap_at s = 0 then (hasSpecialSeverity(s := True), result)
        else if sevMap_at s > sevMap_at result then (hasSpecialSeverity, s)
        else (hasSpecialSeverity, result))"

definition overrides :: "VulnerabilityStatus list" where
  "overrides =
    [ErrorVulnerabilityStatus, UnsupportedVulnerabilityStatus, PendingVulnerabilityStatus]"

text \<open>The second loop: the first override that was seen is returned at once.\<close>

fun first_override ::
  "VulnerabilityStatus list \<Rightarrow> (VulnerabilityStatus \<Rightarrow> bool) \<Rightarrow> VulnerabilityStatus option" where
  "first_override [] hasSpecialSeverity = None"
| "first_override (s # ss) hasSpecialSeverity =
     (if hasSpecialSeverity s then Some s else first_override ss hasSpecialSeverity)"

definition MergeVulnerabilityStatuses :: "VulnerabilityStatus list \<Rightarrow> VulnerabilityStatus" where
  "MergeVulnerabilityStatuses sevs =
     (case merge_scan sevs (\<lambda>_. False, CleanSeverity) of
        (hasSpecialSeverity, result) \<Rightarrow>
          (case first_override overrides hasSpecialSeverity of
             Some s \<Rightarrow> s
           | None \<Rightarrow> result))"

text \<open>The eleven enumerated statuses, and the eight of them that are severities.\<close>

definition enumerated :: "VulnerabilityStatus set" where
  "enumerated =
    {ErrorVulnerabilityStatus, PendingVulnerabilityStatus, UnsupportedVulnerabilityStatus,
     CleanSeverity, UnknownSeverity, NegligibleSeverity, LowSeverity, MediumSeverity,
     HighSeverity, CriticalSeverity, Defcon1Severity}"

definition severities :: "VulnerabilityStatus set" where
  "severities =
    {CleanSeverity, UnknownSeverity, NegligibleSeverity, LowSeverity, MediumSeverity,
     HighSeverity, CriticalSeverity, Defcon1Severity}"

text \<open>
  A rank that extends the severity numbers of \<^verbatim>\<open>sevMap\<close> to the three overriding
  statuses, in the priority order of \<^verbatim>\<open>overrides\<close>. It is used in proofs only.
\<close>

definition ext_rank :: "VulnerabilityStatus \<Rightarrow> nat" where
  "ext_rank s =
     (if s = ErrorVulnerabilityStatus then 11
      else if s = UnsupportedVulnerabilityStatus then 10
      else if s = PendingVulnerabilityStatus then 9
      else sevMap_at s)"

section \<open>Errors\<close>

text \<open>
  Go's \<^verbatim>\<open>error\<close> values that the modelled functions return or receive.
  \<^item> \<open>ErrNoRows\<close> is the sentinel \<^verbatim>\<open>sql.ErrNoRows\<close>.
  \<^item> \<open>Failure text\<close> is any other error of the database or of the file system.
  \<^item> \<open>NumError input cause\<close> is the \<^verbatim>\<open>*strconv.NumError\<close> of \<^verbatim>\<open>strconv.ParseUint\<close>.
  \<^item> \<open>WhileSweeping name err\<close> is
    \<^verbatim>\<open>fmt.Errorf("while sweeping blob mounts in repo %q: %s", name, err.Error())\<close>.
  \<^item> \<open>UndeletedBlob id\<close> is
    \<^verbatim>\<open>fmt.Errorf("found undeleted blob during CleanupAccount: storageID = %q", id)\<close>.
  \<^item> \<open>UndeletedManifest repo digest\<close> is
    \<^verbatim>\<open>fmt.Errorf("found undeleted manifest during CleanupAccount: %s@%s", repo, digest)\<close>.
\<close>

datatype num_cause = ErrSyntax | ErrRange

datatype error =
    ErrNoRows
  | Failure string
  | NumError string num_cause
  | WhileSweeping string error
  | UndeletedBlob string
  | UndeletedManifest string string

section \<open>Rate limits (package keppel)\<close>

text \<open>
  \<^verbatim>\<open>keppel.Account\<close>: the two fields that the modelled functions read.
\<close>

record Account =
  Name :: string
  AuthTenantID :: string

type_synonym RateLimitedAction = string

text \<open>
  \<^verbatim>\<open>redis_rate.Limit\<close> and \<^verbatim>\<open>redis_rate.Result\<close>. Go's \<^verbatim>\<open>int\<close> and
  \<^verbatim>\<open>time.Duration\<close> (nanoseconds) are integers; a field that a struct literal leaves out
  is zero.
\<close>

record Limit =
  Rate :: int
  Burst :: int
  Period :: int

record Result =
  Limit :: Limit
  Allowed :: int
  Remaining :: int
  ResetAfter :: int
  RetryAfter :: int

definition MaxInt64 :: int where
  "MaxInt64 = 9223372036854775807"

definition Second :: int where
  "Second = 1000000000"

definition Minute :: int where
  "Minute = 60 * Second"

definition Hour :: int where
  "Hour = 60 * Minute"

text \<open>The zero value \<^verbatim>\<open>redis_rate.Result{}\<close>.\<close>

definition zero_Result :: Result where
  "zero_Result =
     \<lparr>Limit = \<lparr>Rate = 0, Burst = 0, Period = 0\<rparr>,
      Allowed = 0, Remaining = 0, ResetAfter = 0, RetryAfter = 0\<rparr>"

text \<open>
  \<^verbatim>\<open>RateLimitEngine\<close>. \<^verbatim>\<open>Driver\<close> is the method \<^verbatim>\<open>GetRateLimit\<close> of the driver: it
  returns \<^verbatim>\<open>nil\<close> (here \<open>None\<close>) when the action has no rate limit. The limiter behind
  \<^verbatim>\<open>Client\<close> lives in redis: \<^verbatim>\<open>AllowN\<close> takes the key, the limit and the amount, reads and
  changes the redis state \<open>'r\<close>, and returns an error or a result.
\<close>

record 'r RateLimitEngine =
  Driver :: "Account \<Rightarrow> RateLimitedAction \<Rightarrow> Limit option"
  AllowN :: "string \<Rightarrow> Limit \<Rightarrow> int \<Rightarrow> 'r \<Rightarrow> (error + Result) \<times> 'r"

text \<open>
  What \<^verbatim>\<open>RateLimitAllows\<close> works on: the redis state, and a log of the calls made to the
  limiter (key, limit, amount), newest last.
\<close>

record 'r Redis =
  redis_state :: 'r
  limiter_calls :: "(string \<times> Limit \<times> int) list"

text \<open>
  \<^verbatim>\<open>RateLimitAllows\<close> returns the flag, the result and the error (\<open>None\<close> is \<^verbatim>\<open>nil\<close>).
  \<^verbatim>\<open>int(amount)\<close> reads the 64 bits of the unsigned amount as a signed integer.
\<close>

definition RateLimitAllows ::
  "'r RateLimitEngine \<Rightarrow> Account \<Rightarrow> RateLimitedAction \<Rightarrow> 64 word \<Rightarrow> 'r Redis
    \<Rightarrow> (bool \<times> Result \<times> error option) \<times> 'r Redis" where
  "RateLimitAllows e account action amount rs =
     (case Driver e account action of
        None \<Rightarrow>
          ((True,
            \<lparr>Limit = \<lparr>Rate = MaxInt64, Burst = 0, Period = Second\<rparr>,
             Allowed = 0, Remaining = MaxInt64, ResetAfter = 0, RetryAfter = - 1\<rparr>,
            None), rs)
      | Some rateQuota \<Rightarrow>
          (let key = ''keppel-ratelimit-'' @ action @ ''-'' @ Name account;
               (outcome, r') = AllowN e key rateQuota (sint amount) (redis_state rs);
               rs' = rs\<lparr>redis_state := r',
                        limiter_calls := limiter_calls rs @ [(key, rateQuota, sint amount)]\<rparr>
           in case outcome of
                Inl err \<Rightarrow> ((False, zero_Result, Some err), rs')
              | Inr result \<Rightarrow> ((Allowed result > 0, result, None), rs')))"

section \<open>Filesystem storage driver (package filesystem)\<close>

record StoredBlobInfo =
  StorageID :: string

record StoredManifestInfo =
  RepoName :: string
  Digest :: string

text \<open>
  The driver's \<^verbatim>\<open>root\<close> file system. \<open>Readdirnames path\<close> stands for
  \<^verbatim>\<open>root.Open(path)\<close> followed by \<^verbatim>\<open>Readdirnames(-1)\<close>: the names in the directory,
  or the error of either call. \<open>Join\<close> is \<^verbatim>\<open>filepath.Join\<close> on two elements.
\<close>

record StorageDriver =
  Readdirnames :: "string \<Rightarrow> error + string list"
  Join :: "string \<Rightarrow> string \<Rightarrow> string"

definition blobBasePath :: "Account \<Rightarrow> string" where
  "blobBasePath account = AuthTenantID account @ ''/'' @ Name account @ ''/b''"

definition manifestBasePath :: "Account \<Rightarrow> string" where
  "manifestBasePath account = AuthTenantID account @ ''/'' @ Name account @ ''/m''"

definition HasSuffix :: "string \<Rightarrow> string \<Rightarrow> bool" where
  "HasSuffix s sfx = suffix sfx s"

text \<open>The loop of \<^verbatim>\<open>getBlobs\<close> over the names, appending to \<^verbatim>\<open>blobs\<close>.\<close>

fun getBlobs_loop :: "string list \<Rightarrow> StoredBlobInfo list \<Rightarrow> StoredBlobInfo list" where
  "getBlobs_loop [] blobs = blobs"
| "getBlobs_loop (name # names) blobs =
     (if HasSuffix name ''.tmp'' then getBlobs_loop names blobs
      else getBlobs_loop names (blobs @ [\<lparr>StorageID = name\<rparr>]))"

definition getBlobs :: "StorageDriver \<Rightarrow> Account \<Rightarrow> error + StoredBlobInfo list" where
  "getBlobs d account =
     (case Readdirnames d (blobBasePath account) of
        Inl err \<Rightarrow> Inl err
      | Inr names \<Rightarrow> Inr (getBlobs_loop names []))"

fun getRepoManifests_loop ::
  "string \<Rightarrow> string list \<Rightarrow> StoredManifestInfo list \<Rightarrow> StoredManifestInfo list" where
  "getRepoManifests_loop repo [] manifests = manifests"
| "getRepoManifests_loop repo (digest # digests) manifests =
     (if HasSuffix digest ''.tmp'' then getRepoManifests_loop repo digests manifests
      else getRepoManifests_loop repo digests
             (manifests @ [\<lparr>RepoName = repo, Digest = digest\<rparr>]))"

definition getRepoManifests ::
  "StorageDriver \<Rightarrow> Account \<Rightarrow> string \<Rightarrow> error + StoredManifestInfo list" where
  "getRepoManifests d account repo =
     (case Readdirnames d (Join d (manifestBasePath account) repo) of
        Inl err \<Rightarrow> Inl err
      | Inr digests \<Rightarrow> Inr (getRepoManifests_loop repo digests []))"

text \<open>The loop of \<^verbatim>\<open>getManifests\<close> over the repositories; the first error ends it.\<close>

fun getManifests_loop ::
  "StorageDriver \<Rightarrow> Account \<Rightarrow> string list \<Rightarrow> StoredManifestInfo list
    \<Rightarrow> error + StoredManifestInfo list" where
  "getManifests_loop d account [] manifests = Inr manifests"
| "getManifests_loop d account (repo # repos) manifests =
     (case getRepoManifests d account repo of
        Inl err \<Rightarrow> Inl err
      | Inr repoManifests \<Rightarrow> getManifests_loop d account repos (manifests @ repoManifests))"

definition getManifests :: "StorageDriver \<Rightarrow> Account \<Rightarrow> error + StoredManifestInfo list" where
  "getManifests d account =
     (case Readdirnames d (manifestBasePath account) of
        Inl err \<Rightarrow> Inl err
      | Inr repos \<Rightarrow> getManifests_loop d account repos [])"

text \<open>
  \<^verbatim>\<open>ListStorageContents\<close> returns three values, as in Go: the two slices (\<^verbatim>\<open>nil\<close> is
  the empty list) and the error (\<open>None\<close> is \<^verbatim>\<open>nil\<close>).
\<close>

definition ListStorageContents ::
  "StorageDriver \<Rightarrow> Account
    \<Rightarrow> StoredBlobInfo list \<times> StoredManifestInfo list \<times> error option" where
  "ListStorageContents d account =
     (case getBlobs d account of
        Inl err \<Rightarrow> ([], [], Some err)
      | Inr blobs \<Rightarrow>
          (case getManifests d account of
             Inl err \<Rightarrow> ([], [], Some err)
           | Inr manifests \<Rightarrow> (blobs, manifests, None)))"

definition CleanupAccount :: "StorageDriver \<Rightarrow> Account \<Rightarrow> error option" where
  "CleanupAccount d account =
     (case ListStorageContents d account of
        (storedBlobs, storedManifests, err) \<Rightarrow>
          if length storedBlobs > 0 then
            Some (UndeletedBlob (StorageID (storedBlobs ! 0)))
          else if length storedManifests > 0 then
            Some (UndeletedManifest (RepoName (storedManifests ! 0))
                    (Digest (storedManifests ! 0)))
          else err)"

text \<open>An account directory with one blob, one unfinished upload and one manifest.\<close>

definition example_account :: Account where
  "example_account = \<lparr>Name = ''test1'', AuthTenantID = ''tenant1''\<rparr>"

definition example_driver :: StorageDriver where
  "example_driver =
     \<lparr>Readdirnames = (\<lambda>path.
        if path = ''tenant1/test1/b'' then Inr [''upload.tmp'', ''blob1'']
        else if path = ''tenant1/test1/m'' then Inr [''repo1'']
        else if path = ''tenant1/test1/m/repo1'' then Inr [''sha256:abc'']
        else Inl (Failure ''no such file or directory'')),
      Join = (\<lambda>a b. a @ ''/'' @ b)\<rparr>"

section \<open>Paginated queries (package keppelv1)\<close>

text \<open>
  \<^verbatim>\<open>url.Values\<close> maps a key to a list of strings (a missing key has none);
  \<^verbatim>\<open>Get\<close> returns the first string of the key, or the empty string.
\<close>

type_synonym Values = "string \<Rightarrow> string list"

definition Values_Get :: "Values \<Rightarrow> string \<Rightarrow> string" where
  "Values_Get v key = (case v key of [] \<Rightarrow> '''' | x # _ \<Rightarrow> x)"

text \<open>
  A bind value is an \<^verbatim>\<open>interface{}\<close>: the marker that \<^verbatim>\<open>Prepare\<close> appends is a string,
  the values of the caller are of any type \<open>'a\<close>.
\<close>

datatype 'a interface = StringValue string | OtherValue 'a

record 'a paginatedQuery =
  SQL :: string
  MarkerField :: string
  Options :: Values
  BindValues :: "'a interface list"

text \<open>
  \<^verbatim>\<open>strconv.ParseUint(s, 10, 64)\<close> of the Go library: the empty string is a syntax error;
  the bytes are read from the left into the 64-bit number \<open>n\<close>; a byte that is not a
  decimal digit is a syntax error; a number that leaves the 64 bits is a range error, found
  either before the multiplication by ten (\<open>n\<close> not below the cutoff) or at the addition
  of the digit, which wraps around.
\<close>

definition maxUint64 :: nat where
  "maxUint64 = 18446744073709551615"

definition is_digit :: "char \<Rightarrow> bool" where
  "is_digit c =
     (of_char (CHR ''0'') \<le> (of_char c :: nat) \<and> (of_char c :: nat) \<le> of_char (CHR ''9''))"

definition digit_value :: "char \<Rightarrow> nat" where
  "digit_value c = of_char c - of_char (CHR ''0'')"

fun ParseUint_loop :: "string \<Rightarrow> nat \<Rightarrow> num_cause + nat" where
  "ParseUint_loop [] n = Inr n"
| "ParseUint_loop (c # cs) n =
     (if \<not> is_digit c then Inl ErrSyntax
      else if n \<ge> maxUint64 div 10 + 1 then Inl ErrRange
      else
        (let n10 = (n * 10) mod 2 ^ 64;
             n1 = (n10 + digit_value c) mod 2 ^ 64
         in if n1 < n10 \<or> n1 > maxUint64 then Inl ErrRange
            else ParseUint_loop cs n1))"

definition ParseUint :: "string \<Rightarrow> error + nat" where
  "ParseUint s =
     (if s = '''' then Inl (NumError s ErrSyntax)
      else case ParseUint_loop s 0 of
             Inl cause \<Rightarrow> Inl (NumError s cause)
           | Inr n \<Rightarrow> Inr n)"

text \<open>\<^verbatim>\<open>strconv.FormatUint(n, 10)\<close>: the decimal digits of \<open>n\<close>, without leading zeros.\<close>

fun FormatUint :: "nat \<Rightarrow> string" where
  "FormatUint n =
     (if n < 10 then [''0123456789'' ! n]
      else FormatUint (n div 10) @ [''0123456789'' ! (n mod 10)])"

text \<open>
  \<^verbatim>\<open>strings.Replace(s, old, new, 1)\<close>: the first occurrence of \<open>old\<close> in \<open>s\<close> is
  replaced by \<open>new\<close>; without an occurrence \<open>s\<close> is returned as it is.
\<close>

fun Replace1 :: "string \<Rightarrow> string \<Rightarrow> string \<Rightarrow> string" where
  "Replace1 [] old new = (if old = [] then new else [])"
| "Replace1 (c # cs) old new =
     (if prefix old (c # cs) then new @ drop (length old) (c # cs)
      else c # Replace1 cs old new)"

text \<open>
  \<^verbatim>\<open>paginatedQuery.Prepare\<close> returns the query, the bind values and the limit, or the
  error. The limit is a \<^verbatim>\<open>uint64\<close>, and \<^verbatim>\<open>limit+1\<close> is taken modulo \<open>2\<^sup>6\<^sup>4\<close>.
\<close>

definition Prepare :: "'a paginatedQuery \<Rightarrow> error + string \<times> 'a interface list \<times> nat" where
  "Prepare q =
     (let limitStr = Values_Get (Options q) ''limit'' in
      case (if limitStr \<noteq> '''' then
              (case ParseUint limitStr of
                 Inl err \<Rightarrow> Inl err
               | Inr limitVal \<Rightarrow> Inr (if limitVal < 1000 then limitVal else 1000))
            else Inr 1000) of
        Inl err \<Rightarrow> Inl err
      | Inr limit \<Rightarrow>
         (let query = Replace1 (SQL q) ''$LIMIT'' (FormatUint ((limit + 1) mod 2 ^ 64));
              marker = Values_Get (Options q) ''marker''
          in if marker = '''' then
               Inr (Replace1 query ''$CONDITION'' ''TRUE'', BindValues q, limit)
             else
               Inr (Replace1 query ''$CONDITION'' (MarkerField q @ '' > $2''),
                    BindValues q @ [StringValue marker], limit)))"

text \<open>
  The number that a string of decimal digits denotes, for stating what \<^verbatim>\<open>Prepare\<close> does
  with the value of \<^verbatim>\<open>?limit=\<close>.
\<close>

fun decimal_from :: "nat \<Rightarrow> string \<Rightarrow> nat" where
  "decimal_from n [] = n"
| "decimal_from n (c # cs) = decimal_from (n * 10 + digit_value c) cs"

definition decimal_value :: "string \<Rightarrow> nat" where
  "decimal_value s = decimal_from 0 s"

text \<open>A query for three rows after the marker, and one with a limit of \<open>2\<^sup>6\<^sup>4\<close>.\<close>

definition example_query :: "unit paginatedQuery" where
  "example_query =
     \<lparr>SQL = ''SELECT * FROM accounts WHERE $CONDITION ORDER BY name LIMIT $LIMIT'',
      MarkerField = ''name'',
      Options = (\<lambda>key. if key = ''limit'' then [''3'']
                        else if key = ''marker'' then [''test1''] else []),
      BindValues = [OtherValue ()]\<rparr>"

definition example_query_overflow :: "unit paginatedQuery" where
  "example_query_overflow =
     \<lparr>SQL = ''SELECT * FROM accounts WHERE $CONDITION ORDER BY name LIMIT $LIMIT'',
      MarkerField = ''name'',
      Options = (\<lambda>key. if key = ''limit'' then [''18446744073709551616''] else []),
      BindValues = []\<rparr>"

section \<open>Blob-mount sweep (package tasks)\<close>

text \<open>
  A \<^verbatim>\<open>time.Time\<close> is a number of nanoseconds, a \<^verbatim>\<open>time.Duration\<close> too; a nullable
  \<^verbatim>\<open>TIMESTAMPTZ\<close> column is a \<open>time option\<close>, \<open>None\<close> being \<^verbatim>\<open>NULL\<close>.
\<close>

type_synonym time = int

text \<open>
  The rows of the tables that the five statements read or write, with the columns of the
  migrations. Of \<^verbatim>\<open>manifests\<close> only the columns that the search statement reads are kept.
\<close>

record Repository =
  ID :: int
  AccountName :: string
  repo_Name :: string
  NextBlobMountSweepAt :: "time option"
  NextManifestSyncAt :: "time option"
  NextGarbageCollectionAt :: "time option"

record Manifest =
  manifest_RepositoryID :: int
  manifest_Digest :: string
  ValidationErrorMessage :: string

record BlobMount =
  mount_BlobID :: int
  mount_RepositoryID :: int
  CanBeDeletedAt :: "time option"

record ManifestBlobRef =
  ref_RepositoryID :: int
  ref_Digest :: string
  ref_BlobID :: int

record DB =
  repos :: "Repository list"
  manifests :: "Manifest list"
  blob_mounts :: "BlobMount list"
  manifest_blob_refs :: "ManifestBlobRef list"

text \<open>The zero value of \<^verbatim>\<open>keppel.Repository\<close>, which \<^verbatim>\<open>var repo\<close> holds at first.\<close>

definition zero_Repository :: Repository where
  "zero_Repository =
     \<lparr>ID = 0, AccountName = '''', repo_Name = '''', NextBlobMountSweepAt = None,
      NextManifestSyncAt = None, NextGarbageCollectionAt = None\<rparr>"

text \<open>
  Modelled from the spec: \<^verbatim>\<open>Repository.FullName\<close> is not part of the sources. The spec
  names a repository by its account and its name, as in \<^verbatim>\<open>test1/repo1-3\<close>.
\<close>

definition FullName :: "Repository \<Rightarrow> string" where
  "FullName r = AccountName r @ ''/'' @ repo_Name r"

text \<open>
  SQL comparison of a nullable timestamp with a parameter: \<^verbatim>\<open>col < $n\<close> is true only for
  a value that is not \<^verbatim>\<open>NULL\<close> and smaller; a row is selected only where the \<^verbatim>\<open>WHERE\<close>
  clause is true.
\<close>

definition sql_less :: "time option \<Rightarrow> time \<Rightarrow> bool" where
  "sql_less col t = (case col of None \<Rightarrow> False | Some v \<Rightarrow> v < t)"

text \<open>
  \<^verbatim>\<open>SELECT repo_id FROM manifests WHERE validation_error_message != ''\<close>
\<close>

definition failed_manifest_repo_ids :: "DB \<Rightarrow> int list" where
  "failed_manifest_repo_ids d =
     map manifest_RepositoryID (filter (\<lambda>m. ValidationErrorMessage m \<noteq> '''') (manifests d))"

text \<open>
  The \<^verbatim>\<open>WHERE\<close> clause of \<^verbatim>\<open>blobMountSweepSearchQuery\<close>. In SQL \<^verbatim>\<open>AND\<close> binds tighter
  than \<^verbatim>\<open>OR\<close>, so the clause reads
  \<^verbatim>\<open>next_blob_mount_sweep_at IS NULL OR (next_blob_mount_sweep_at < $1 AND id NOT IN (...))\<close>.
\<close>

definition search_where :: "DB \<Rightarrow> time \<Rightarrow> Repository \<Rightarrow> bool" where
  "search_where d now r =
     (NextBlobMountSweepAt r = None
      \<or> (sql_less (NextBlobMountSweepAt r) now \<and> ID r \<notin> set (failed_manifest_repo_ids d)))"

text \<open>
  \<^verbatim>\<open>ORDER BY next_blob_mount_sweep_at IS NULL DESC, next_blob_mount_sweep_at ASC\<close>:
  \<open>sorts_before a b\<close> holds when a row with the value \<open>a\<close> must come before a row with
  the value \<open>b\<close>.
\<close>

definition sorts_before :: "time option \<Rightarrow> time option \<Rightarrow> bool" where
  "sorts_before a b =
     (case a of
        None \<Rightarrow> b \<noteq> None
      | Some s \<Rightarrow> (case b of None \<Rightarrow> False | Some t \<Rightarrow> s < t))"

text \<open>
  \<^verbatim>\<open>ORDER BY ... LIMIT 1\<close>: a row that no other row sorts before; among rows that sort
  equally, the model takes the first of the table.
\<close>

fun order_limit_1 :: "Repository list \<Rightarrow> Repository option" where
  "order_limit_1 [] = None"
| "order_limit_1 (r # rs) =
     (case order_limit_1 rs of
        None \<Rightarrow> Some r
      | Some r' \<Rightarrow>
          if sorts_before (NextBlobMountSweepAt r') (NextBlobMountSweepAt r) then Some r'
          else Some r)"

definition blobMountSweepSearchQuery :: "DB \<Rightarrow> time \<Rightarrow> Repository option" where
  "blobMountSweepSearchQuery d now = order_limit_1 (filter (search_where d now) (repos d))"

text \<open>
  \<^verbatim>\<open>SELECT blob_id FROM manifest_blob_refs WHERE repo_id = $1\<close>
\<close>

definition referenced_blob_ids :: "DB \<Rightarrow> int \<Rightarrow> int list" where
  "referenced_blob_ids d repo_id =
     map ref_BlobID (filter (\<lambda>ref. ref_RepositoryID ref = repo_id) (manifest_blob_refs d))"

text \<open>
  \<^verbatim>\<open>blobMountMarkQuery\<close> with \<^verbatim>\<open>$1 = repo_id\<close> and \<^verbatim>\<open>$2 = canBeDeletedAt\<close>.
\<close>

definition blobMountMarkQuery :: "int \<Rightarrow> time \<Rightarrow> DB \<Rightarrow> DB" where
  "blobMountMarkQuery repo_id canBeDeletedAt d =
     d\<lparr>blob_mounts :=
         map (\<lambda>m. if mount_RepositoryID m = repo_id \<and> CanBeDeletedAt m = None
                      \<and> mount_BlobID m \<notin> set (referenced_blob_ids d repo_id)
                   then m\<lparr>CanBeDeletedAt := Some canBeDeletedAt\<rparr> else m)
           (blob_mounts d)\<rparr>"

definition blobMountUnmarkQuery :: "int \<Rightarrow> DB \<Rightarrow> DB" where
  "blobMountUnmarkQuery repo_id d =
     d\<lparr>blob_mounts :=
         map (\<lambda>m. if mount_RepositoryID m = repo_id
                      \<and> mount_BlobID m \<in> set (referenced_blob_ids d repo_id)
                   then m\<lparr>CanBeDeletedAt := None\<rparr> else m)
           (blob_mounts d)\<rparr>"

text \<open>
  The \<^verbatim>\<open>WHERE\<close> clause of \<^verbatim>\<open>blobMountSweepMarkedQuery\<close>, and the foreign key of
  migration 006: \<^verbatim>\<open>manifest_blob_refs (blob_id, repo_id)\<close> references \<^verbatim>\<open>blob_mounts\<close>
  with \<^verbatim>\<open>ON DELETE RESTRICT\<close>, so a \<^verbatim>\<open>DELETE\<close> that would remove a referenced row fails
  and removes nothing.
\<close>

definition sweep_where :: "int \<Rightarrow> time \<Rightarrow> BlobMount \<Rightarrow> bool" where
  "sweep_where repo_id now m = (mount_RepositoryID m = repo_id \<and> sql_less (CanBeDeletedAt m) now)"

definition mount_is_referenced :: "DB \<Rightarrow> BlobMount \<Rightarrow> bool" where
  "mount_is_referenced d m =
     (\<exists>ref \<in> set (manifest_blob_refs d).
        ref_BlobID ref = mount_BlobID m \<and> ref_RepositoryID ref = mount_RepositoryID m)"

definition blobMountSweepMarkedQuery :: "int \<Rightarrow> time \<Rightarrow> DB \<Rightarrow> error + nat \<times> DB" where
  "blobMountSweepMarkedQuery repo_id now d =
     (let doomed = filter (sweep_where repo_id now) (blob_mounts d) in
      if \<exists>m \<in> set doomed. mount_is_referenced d m then
        Inl (Failure ''update or delete on table blob_mounts violates foreign key constraint'')
      else
        Inr (length doomed,
             d\<lparr>blob_mounts := filter (\<lambda>m. \<not> sweep_where repo_id now m) (blob_mounts d)\<rparr>))"

definition blobMountSweepDoneQuery :: "int \<Rightarrow> time \<Rightarrow> DB \<Rightarrow> DB" where
  "blobMountSweepDoneQuery repo_id next d =
     d\<lparr>repos :=
         map (\<lambda>r. if ID r = repo_id then r\<lparr>NextBlobMountSweepAt := Some next\<rparr> else r)
           (repos d)\<rparr>"

text \<open>
  The janitor. \<open>timeNow k\<close> is what the \<open>k\<close>-th call of \<^verbatim>\<open>j.timeNow()\<close> in one run
  returns; the function makes up to four calls (number 0 for the search, 1 for
  \<^verbatim>\<open>canBeDeletedAt\<close>, 2 for the sweep, 3 for the next sweep time). \<open>fails stmt\<close> is the
  error with which the database refuses a statement for a reason of its own (connection
  lost, deadlock, ...), if any; a refused statement changes nothing.
\<close>

datatype stmt = SearchStmt | MarkStmt | UnmarkStmt | SweepStmt | RowsAffectedCall | DoneStmt

record Janitor =
  timeNow :: "nat \<Rightarrow> time"
  fails :: "stmt \<Rightarrow> error option"

text \<open>
  What a run works on: the database and the two counters
  \<^verbatim>\<open>sweepBlobMountsSuccessCounter\<close> and \<^verbatim>\<open>sweepBlobMountsFailedCounter\<close>.
\<close>

record World =
  db :: DB
  sweepBlobMountsSuccessCounter :: nat
  sweepBlobMountsFailedCounter :: nat

text \<open>
  \<^verbatim>\<open>j.db.SelectOne(&repo, blobMountSweepSearchQuery, j.timeNow())\<close>: without a row it
  returns \<^verbatim>\<open>sql.ErrNoRows\<close>.
\<close>

definition SelectOne_search :: "Janitor \<Rightarrow> DB \<Rightarrow> error + Repository" where
  "SelectOne_search j d =
     (case fails j SearchStmt of
        Some err \<Rightarrow> Inl err
      | None \<Rightarrow>
          (case blobMountSweepSearchQuery d (timeNow j 0) of
             None \<Rightarrow> Inl ErrNoRows
           | Some repo \<Rightarrow> Inr repo))"

text \<open>
  The body of \<^verbatim>\<open>SweepBlobMountsInNextRepo\<close>: it returns the local variable \<^verbatim>\<open>repo\<close>,
  the value of \<^verbatim>\<open>returnErr\<close> before the deferred function runs, and the database.
  Each statement is its own transaction, so the changes of the statements before a failing
  one stay. The two log messages are left out.
\<close>

definition sweep_body :: "Janitor \<Rightarrow> DB \<Rightarrow> Repository \<times> error option \<times> DB" where
  "sweep_body j d =
     (case SelectOne_search j d of
        Inl err \<Rightarrow> (zero_Repository, Some err, d)
      | Inr repo \<Rightarrow>
          (let canBeDeletedAt = timeNow j 1 + 30 * Minute in
           case fails j MarkStmt of
             Some err \<Rightarrow> (repo, Some err, d)
           | None \<Rightarrow>
          (let d1 = blobMountMarkQuery (ID repo) canBeDeletedAt d in
           case fails j UnmarkStmt of
             Some err \<Rightarrow> (repo, Some err, d1)
           | None \<Rightarrow>
          (let d2 = blobMountUnmarkQuery (ID repo) d1 in
           case (case fails j SweepStmt of
                   Some err \<Rightarrow> Inl err
                 | None \<Rightarrow> blobMountSweepMarkedQuery (ID repo) (timeNow j 2) d2) of
             Inl err \<Rightarrow> (repo, Some err, d2)
           | Inr (rowsDeleted, d3) \<Rightarrow>
          (case fails j RowsAffectedCall of
             Some err \<Rightarrow> (repo, Some err, d3)
           | None \<Rightarrow>
          (case fails j DoneStmt of
             Some err \<Rightarrow> (repo, Some err, d3)
           | None \<Rightarrow>
               (repo, None,
                blobMountSweepDoneQuery (ID repo) (timeNow j 3 + 1 * Hour) d3)))))))"

text \<open>
  \<^verbatim>\<open>SweepBlobMountsInNextRepo\<close> with its deferred function, which counts the run and
  wraps every error but \<^verbatim>\<open>sql.ErrNoRows\<close>.
\<close>

definition SweepBlobMountsInNextRepo :: "Janitor \<Rightarrow> World \<Rightarrow> error option \<times> World" where
  "SweepBlobMountsInNextRepo j w =
     (case sweep_body j (db w) of
        (repo, returnErr, d') \<Rightarrow>
          (case returnErr of
             None \<Rightarrow>
               (None,
                w\<lparr>db := d', sweepBlobMountsSuccessCounter := sweepBlobMountsSuccessCounter w + 1\<rparr>)
           | Some err \<Rightarrow>
               if err \<noteq> ErrNoRows then
                 (Some (WhileSweeping (FullName repo) err),
                  w\<lparr>db := d', sweepBlobMountsFailedCounter := sweepBlobMountsFailedCounter w + 1\<rparr>)
               else (Some err, w\<lparr>db := d'\<rparr>)))"

text \<open>
  The invariant of migration 006 (mount before reference): every row of
  \<^verbatim>\<open>manifest_blob_refs\<close> has a row of \<^verbatim>\<open>blob_mounts\<close> with its blob and repository.
\<close>

definition has_mount :: "DB \<Rightarrow> int \<Rightarrow> int \<Rightarrow> bool" where
  "has_mount d blob_id repo_id =
     (\<exists>m \<in> set (blob_mounts d). mount_BlobID m = blob_id \<and> mount_RepositoryID m = repo_id)"

definition is_referenced :: "DB \<Rightarrow> int \<Rightarrow> int \<Rightarrow> bool" where
  "is_referenced d blob_id repo_id =
     (\<exists>ref \<in> set (manifest_blob_refs d).
        ref_BlobID ref = blob_id \<and> ref_RepositoryID ref = repo_id)"

definition mount_before_reference :: "DB \<Rightarrow> bool" where
  "mount_before_reference d =
     (\<forall>ref \<in> set (manifest_blob_refs d). has_mount d (ref_BlobID ref) (ref_RepositoryID ref))"

text \<open>
  A repository that was never swept and holds a manifest that failed validation, with one
  blob mount that the failed manifest may still need.
\<close>

definition example_failed_repo :: Repository where
  "example_failed_repo =
     \<lparr>ID = 1, AccountName = ''test1'', repo_Name = ''foo'', NextBlobMountSweepAt = None,
      NextManifestSyncAt = None, NextGarbageCollectionAt = None\<rparr>"

definition example_failed_db :: DB where
  "example_failed_db =
     \<lparr>repos = [example_failed_repo],
      manifests =
        [\<lparr>manifest_RepositoryID = 1, manifest_Digest = ''sha256:e255'',
          ValidationErrorMessage = ''manifest blob unknown to registry''\<rparr>],
      blob_mounts = [\<lparr>mount_BlobID = 1, mount_RepositoryID = 1, CanBeDeletedAt = None\<rparr>],
      manifest_blob_refs = []\<rparr>"

text \<open>
  A repository that is due, with blob mounts 1, 2, 3 and 5 referenced by a manifest, blob
  mount 4 referenced by none, and blob mount 6 marked by an earlier run.
\<close>

definition example_repo :: Repository where
  "example_repo =
     \<lparr>ID = 1, AccountName = ''test1'', repo_Name = ''foo'', NextBlobMountSweepAt = Some 21600,
      NextManifestSyncAt = None, NextGarbageCollectionAt = None\<rparr>"

definition example_db :: DB where
  "example_db =
     \<lparr>repos = [example_repo],
      manifests =
        [\<lparr>manifest_RepositoryID = 1, manifest_Digest = ''sha256:e255'',
          ValidationErrorMessage = ''''\<rparr>],
      blob_mounts =
        [\<lparr>mount_BlobID = 1, mount_RepositoryID = 1, CanBeDeletedAt = None\<rparr>,
         \<lparr>mount_BlobID = 2, mount_RepositoryID = 1, CanBeDeletedAt = Some 100\<rparr>,
         \<lparr>mount_BlobID = 4, mount_RepositoryID = 1, CanBeDeletedAt = None\<rparr>,
         \<lparr>mount_BlobID = 6, mount_RepositoryID = 1, CanBeDeletedAt = Some 100\<rparr>],
      manifest_blob_refs =
        [\<lparr>ref_RepositoryID = 1, ref_Digest = ''sha256:e255'', ref_BlobID = 1\<rparr>,
         \<lparr>ref_RepositoryID = 1, ref_Digest = ''sha256:e255'', ref_BlobID = 2\<rparr>]\<rparr>"

definition example_world :: World where
  "example_world =
     \<lparr>db = example_db, sweepBlobMountsSuccessCounter = 0, sweepBlobMountsFailedCounter = 0\<rparr>"

text \<open>A janitor with a clock that stands still, and one whose clock jumps before the sweep.\<close>

definition example_janitor :: Janitor where
  "example_janitor = \<lparr>timeNow = (\<lambda>_. 30000), fails = (\<lambda>_. None)\<rparr>"

definition slow_janitor :: Janitor where
  "slow_janitor =
     \<lparr>timeNow = (\<lambda>k. if k < 2 then 30000 else 30000 + 31 * Minute), fails = (\<lambda>_. None)\<rparr>"

definition failing_janitor :: Janitor where
  "failing_janitor =
     \<lparr>timeNow = (\<lambda>_. 30000),
      fails = (\<lambda>s. if s = UnmarkStmt then Some (Failure ''connection reset'') else None)\<rparr>"

definition early_janitor :: Janitor where
  "early_janitor = \<lparr>timeNow = (\<lambda>_. 100), fails = (\<lambda>_. None)\<rparr>"

definition example_world_after :: World where
  "example_world_after =
     \<lparr>db =
        \<lparr>repos =
           [\<lparr>ID = 1, AccountName = ''test1'', repo_Name = ''foo'',
             NextBlobMountSweepAt = Some 3600000030000,
             NextManifestSyncAt = None, NextGarbageCollectionAt = None\<rparr>],
         manifests =
           [\<lparr>manifest_RepositoryID = 1, manifest_Digest = ''sha256:e255'',
             ValidationErrorMessage = ''''\<rparr>],
         blob_mounts =
           [\<lparr>mount_BlobID = 1, mount_RepositoryID = 1, CanBeDeletedAt = None\<rparr>,
            \<lparr>mount_BlobID = 2, mount_RepositoryID = 1, CanBeDeletedAt = None\<rparr>,
            \<lparr>mount_BlobID = 4, mount_RepositoryID = 1, CanBeDeletedAt = Some 1800000030000\<rparr>],
         manifest_blob_refs =
           [\<lparr>ref_RepositoryID = 1, ref_Digest = ''sha256:e255'', ref_BlobID = 1\<rparr>,
            \<lparr>ref_RepositoryID = 1, ref_Digest = ''sha256:e255'', ref_BlobID = 2\<rparr>]\<rparr>,
      sweepBlobMountsSuccessCounter = 1, sweepBlobMountsFailedCounter = 0\<rparr>"

section \<open>Properties of the vulnerability statuses\<close>

lemmas status_defs =
  ErrorVulnerabilityStatus_def PendingVulnerabilityStatus_def
  UnsupportedVulnerabilityStatus_def CleanSeverity_def UnknownSeverity_def
  NegligibleSeverity_def LowSeverity_def MediumSeverity_def HighSeverity_def
  CriticalSeverity_def Defcon1Severity_def

lemma sevMap_at_simps:
  "sevMap_at s = (if s = ''Clean'' then 1 else if s = ''Unknown'' then 2 else if s = ''Negligible'' then 3
     else if s = ''Low'' then 4 else if s = ''Medium'' then 5 else if s = ''High'' then 6
     else if s = ''Critical'' then 7 else if s = ''Defcon1'' then 8 else 0)"
  by (simp add: sevMap_at_def sevMap_def status_defs)

lemma merge_scan_Cons_cases:
  "merge_scan (s # sevs) (h, r) =
     (if sevMap_at s = 0 then merge_scan sevs (h(s := True), r)
      else if sevMap_at s > sevMap_at r then merge_scan sevs (h, s)
      else merge_scan sevs (h, r))"
  by simp

lemma fst_merge_scan:
  "fst (merge_scan sevs (h, r)) x = (h x \<or> (x \<in> set sevs \<and> sevMap_at x = 0))"
  by (induction sevs arbitrary: h r) auto

lemma snd_merge_scan_mem:
  "snd (merge_scan sevs (h, r)) = r \<or>
   (snd (merge_scan sevs (h, r)) \<in> set sevs \<and> 0 < sevMap_at (snd (merge_scan sevs (h, r))))"
proof (induction sevs arbitrary: h r)
  case Nil
  show ?case by simp
next
  case (Cons s sevs)
  show ?case
  proof (cases "sevMap_at s = 0")
    case True
    then have "merge_scan (s # sevs) (h, r) = merge_scan sevs (h(s := True), r)"
      by simp
    with Cons.IH [of "h(s := True)" r] show ?thesis
      by (simp only: list.set) blast
  next
    case False
    show ?thesis
    proof (cases "sevMap_at s > sevMap_at r")
      case True
      with False have "merge_scan (s # sevs) (h, r) = merge_scan sevs (h, s)"
        by simp
      with Cons.IH [of h s] True show ?thesis
        by (simp only: list.set) (metis insertCI gr_implies_not0 neq0_conv)
    next
      case F2: False
      with False have "merge_scan (s # sevs) (h, r) = merge_scan sevs (h, r)"
        by simp
      with Cons.IH [of h r] show ?thesis
        by (simp only: list.set) blast
    qed
  qed
qed

lemma snd_merge_scan_ge:
  "sevMap_at r \<le> sevMap_at (snd (merge_scan sevs (h, r)))"
proof (induction sevs arbitrary: h r)
  case Nil
  show ?case by simp
next
  case (Cons s sevs)
  show ?case
  proof (cases "sevMap_at s = 0")
    case True
    then have "merge_scan (s # sevs) (h, r) = merge_scan sevs (h(s := True), r)"
      by simp
    with Cons.IH [of r "h(s := True)"] show ?thesis
      by (simp only:)
  next
    case False
    show ?thesis
    proof (cases "sevMap_at s > sevMap_at r")
      case True
      with False have "merge_scan (s # sevs) (h, r) = merge_scan sevs (h, s)"
        by simp
      with Cons.IH [of s h] True show ?thesis
        by (simp only:)
    next
      case F2: False
      with False have "merge_scan (s # sevs) (h, r) = merge_scan sevs (h, r)"
        by simp
      with Cons.IH [of r h] show ?thesis
        by (simp only:)
    qed
  qed
qed

lemma snd_merge_scan_max:
  "s \<in> set sevs \<Longrightarrow> sevMap_at s \<le> sevMap_at (snd (merge_scan sevs (h, r)))"
proof (induction sevs arbitrary: h r)
  case Nil
  then show ?case by simp
next
  case (Cons a sevs)
  have step: "sevMap_at a \<le> sevMap_at (snd (merge_scan (a # sevs) (h, r)))"
  proof (cases "sevMap_at a = 0")
    case True
    then show ?thesis by simp
  next
    case False
    show ?thesis
    proof (cases "sevMap_at a > sevMap_at r")
      case True
      with False have "merge_scan (a # sevs) (h, r) = merge_scan sevs (h, a)"
        by simp
      then show ?thesis
        using snd_merge_scan_ge [of a sevs h] by (simp only:)
    next
      case F2: False
      with False have "merge_scan (a # sevs) (h, r) = merge_scan sevs (h, r)"
        by simp
      then show ?thesis
        using snd_merge_scan_ge [of r sevs h] F2 by (simp only:)
    qed
  qed
  show ?case
  proof (cases "s = a")
    case True
    with step show ?thesis by (simp only:)
  next
    case False
    with Cons.prems have mem: "s \<in> set sevs" by simp
    have "\<exists>h' r'. merge_scan (a # sevs) (h, r) = merge_scan sevs (h', r')"
      by (simp only: merge_scan_Cons_cases split: if_split) blast
    then obtain h' r' where "merge_scan (a # sevs) (h, r) = merge_scan sevs (h', r')"
      by blast
    with Cons.IH [OF mem, of h' r'] show ?thesis by (simp only:)
  qed
qed

lemma Merge_unfold:
  "MergeVulnerabilityStatuses sevs =
     (if ErrorVulnerabilityStatus \<in> set sevs then ErrorVulnerabilityStatus
      else if UnsupportedVulnerabilityStatus \<in> set sevs then UnsupportedVulnerabilityStatus
      else if PendingVulnerabilityStatus \<in> set sevs then PendingVulnerabilityStatus
      else snd (merge_scan sevs (\<lambda>_. False, CleanSeverity)))"
proof -
  obtain h r where hr: "merge_scan sevs (\<lambda>_. False, CleanSeverity) = (h, r)"
    by (cases "merge_scan sevs (\<lambda>_. False, CleanSeverity)")
  have h: "h x = (x \<in> set sevs \<and> sevMap_at x = 0)" for x
    using fst_merge_scan [of sevs "\<lambda>_. False" CleanSeverity x] hr by simp
  have z: "sevMap_at ErrorVulnerabilityStatus = 0" "sevMap_at UnsupportedVulnerabilityStatus = 0"
    "sevMap_at PendingVulnerabilityStatus = 0"
    by (simp_all add: sevMap_at_simps status_defs)
  show ?thesis
    by (simp add: MergeVulnerabilityStatuses_def hr overrides_def h z)
qed

lemma enumerated_cases:
  "s \<in> enumerated \<longleftrightarrow>
     s = ''Error'' \<or> s = ''Pending'' \<or> s = ''Unsupported'' \<or> s = ''Clean'' \<or> s = ''Unknown'' \<or>
     s = ''Negligible'' \<or> s = ''Low'' \<or> s = ''Medium'' \<or> s = ''High'' \<or> s = ''Critical'' \<or>
     s = ''Defcon1''"
  by (simp add: enumerated_def status_defs)

lemma ext_rank_simps:
  "ext_rank s = (if s = ''Error'' then 11 else if s = ''Unsupported'' then 10
     else if s = ''Pending'' then 9 else sevMap_at s)"
  by (simp add: ext_rank_def status_defs)

lemma ext_rank_enumerated:
  "s \<in> enumerated \<longleftrightarrow> 1 \<le> ext_rank s"
  by (simp add: enumerated_cases ext_rank_simps sevMap_at_simps)

lemma ext_rank_le_11: "ext_rank s \<le> 11"
  by (simp add: ext_rank_simps sevMap_at_simps)

lemma ext_rank_inj:
  assumes "a \<in> enumerated" and "ext_rank a = ext_rank b"
  shows "a = b"
proof -
  have b: "b \<in> enumerated"
    using assms by (simp add: ext_rank_enumerated)
  have name: "s \<in> enumerated \<Longrightarrow>
      s = (if ext_rank s = 11 then ''Error'' else if ext_rank s = 10 then ''Unsupported''
        else if ext_rank s = 9 then ''Pending'' else if ext_rank s = 8 then ''Defcon1''
        else if ext_rank s = 7 then ''Critical'' else if ext_rank s = 6 then ''High''
        else if ext_rank s = 5 then ''Medium'' else if ext_rank s = 4 then ''Low''
        else if ext_rank s = 3 then ''Negligible'' else if ext_rank s = 2 then ''Unknown''
        else ''Clean'')" for s
    by (auto simp add: enumerated_cases ext_rank_simps sevMap_at_simps)
  from name [OF assms(1)] name [OF b] assms(2) show ?thesis
    by (simp only:)
qed

lemma ext_rank_severity:
  "s \<noteq> ErrorVulnerabilityStatus \<Longrightarrow> s \<noteq> UnsupportedVulnerabilityStatus \<Longrightarrow>
   s \<noteq> PendingVulnerabilityStatus \<Longrightarrow> ext_rank s = sevMap_at s"
  by (simp add: ext_rank_def)

lemma sevMap_at_le_ext_rank: "sevMap_at s \<le> ext_rank s"
  by (simp add: ext_rank_simps sevMap_at_simps)

lemma Merge_char:
  shows Merge_mem: "MergeVulnerabilityStatuses xs \<in> insert CleanSeverity (set xs)"
    and Merge_ub: "x \<in> set xs \<Longrightarrow> ext_rank x \<le> ext_rank (MergeVulnerabilityStatuses xs)"
proof -
  let ?r = "snd (merge_scan xs (\<lambda>_. False, CleanSeverity))"
  have mem: "?r = CleanSeverity \<or> ?r \<in> set xs"
    using snd_merge_scan_mem [of xs "\<lambda>_. False" CleanSeverity] by blast
  show "MergeVulnerabilityStatuses xs \<in> insert CleanSeverity (set xs)"
    using mem by (auto simp add: Merge_unfold)
  assume x: "x \<in> set xs"
  show "ext_rank x \<le> ext_rank (MergeVulnerabilityStatuses xs)"
  proof (cases "ErrorVulnerabilityStatus \<in> set xs")
    case True
    then show ?thesis
      using ext_rank_le_11 [of x] by (simp add: Merge_unfold ext_rank_def)
  next
    case noE: False
    with x have xE: "x \<noteq> ErrorVulnerabilityStatus" by blast
    show ?thesis
    proof (cases "UnsupportedVulnerabilityStatus \<in> set xs")
      case True
      have "ext_rank x \<le> 10"
        using xE by (simp add: ext_rank_simps sevMap_at_simps status_defs)
      with True noE show ?thesis
        by (simp add: Merge_unfold ext_rank_simps status_defs)
    next
      case noU: False
      with x have xU: "x \<noteq> UnsupportedVulnerabilityStatus" by blast
      show ?thesis
      proof (cases "PendingVulnerabilityStatus \<in> set xs")
        case True
        have "ext_rank x \<le> 9"
          using xE xU by (simp add: ext_rank_simps sevMap_at_simps status_defs)
        with True noE noU show ?thesis
          by (simp add: Merge_unfold ext_rank_simps status_defs)
      next
        case noP: False
        with x have xP: "x \<noteq> PendingVulnerabilityStatus" by blast
        have "ext_rank x = sevMap_at x"
          using xE xU xP by (rule ext_rank_severity)
        also have "\<dots> \<le> sevMap_at ?r"
          using x by (rule snd_merge_scan_max)
        also have "\<dots> \<le> ext_rank ?r"
          by (rule sevMap_at_le_ext_rank)
        finally show ?thesis
          using noE noU noP by (simp add: Merge_unfold)
      qed
    qed
  qed
qed

lemma ext_rank_Clean: "ext_rank CleanSeverity = 1"
  by (simp add: ext_rank_simps sevMap_at_simps status_defs)

lemma Clean_enumerated: "CleanSeverity \<in> enumerated"
  by (simp add: enumerated_def)

lemma Merge_enumerated:
  "set xs \<subseteq> enumerated \<Longrightarrow> MergeVulnerabilityStatuses xs \<in> enumerated"
  using Merge_mem [of xs] Clean_enumerated by auto

lemma ext_rank_Merge:
  assumes "set xs \<subseteq> enumerated"
  shows "ext_rank (MergeVulnerabilityStatuses xs) = Max (insert 1 (ext_rank ` set xs))"
proof (rule sym, rule Max_eqI)
  show "finite (insert 1 (ext_rank ` set xs))" by simp
next
  fix y assume "y \<in> insert 1 (ext_rank ` set xs)"
  then consider "y = 1" | x where "x \<in> set xs" "y = ext_rank x" by blast
  then show "y \<le> ext_rank (MergeVulnerabilityStatuses xs)"
  proof cases
    case 1
    then show ?thesis
      using Merge_enumerated [OF assms] by (simp add: ext_rank_enumerated)
  next
    case 2
    then show ?thesis using Merge_ub by simp
  qed
next
  show "ext_rank (MergeVulnerabilityStatuses xs) \<in> insert 1 (ext_rank ` set xs)"
    using Merge_mem [of xs] ext_rank_Clean by auto
qed

lemma Merge_eqI:
  assumes "set xs \<subseteq> enumerated"
    and "ext_rank (MergeVulnerabilityStatuses xs) = ext_rank m"
  shows "MergeVulnerabilityStatuses xs = m"
  using ext_rank_inj [OF Merge_enumerated [OF assms(1)] assms(2)] .

lemma positive_severity: "(0 < sevMap_at s) = (s \<in> severities)"
  by (simp add: sevMap_at_simps severities_def status_defs)

text \<open>
  C3. \<^verbatim>\<open>MergeVulnerabilityStatuses\<close> returns Error if any input is Error; otherwise
  Unsupported if any input is Unsupported; otherwise Pending if any input is Pending;
  otherwise the maximum input severity under the order
  Clean < Unknown < Negligible < Low < Medium < High < Critical < Defcon1 (the order of the
  numbers in \<^verbatim>\<open>sevMap\<close>): the result is a severity, no input has a greater number, and
  the result is one of the inputs unless no input is a severity, when it is Clean. For the
  empty list it returns Clean.
\<close>

theorem MergeVulnerabilityStatuses_spec:
  "(ErrorVulnerabilityStatus \<in> set sevs \<longrightarrow>
      MergeVulnerabilityStatuses sevs = ErrorVulnerabilityStatus)
   \<and> (ErrorVulnerabilityStatus \<notin> set sevs \<and> UnsupportedVulnerabilityStatus \<in> set sevs \<longrightarrow>
      MergeVulnerabilityStatuses sevs = UnsupportedVulnerabilityStatus)
   \<and> (ErrorVulnerabilityStatus \<notin> set sevs \<and> UnsupportedVulnerabilityStatus \<notin> set sevs \<and>
      PendingVulnerabilityStatus \<in> set sevs \<longrightarrow>
      MergeVulnerabilityStatuses sevs = PendingVulnerabilityStatus)
   \<and> (ErrorVulnerabilityStatus \<notin> set sevs \<and> UnsupportedVulnerabilityStatus \<notin> set sevs \<and>
      PendingVulnerabilityStatus \<notin> set sevs \<longrightarrow>
        MergeVulnerabilityStatuses sevs \<in> severities
        \<and> (\<forall>s \<in> set sevs. sevMap_at s \<le> sevMap_at (MergeVulnerabilityStatuses sevs))
        \<and> (MergeVulnerabilityStatuses sevs \<in> set sevs
            \<or> (MergeVulnerabilityStatuses sevs = CleanSeverity
                \<and> (\<forall>s \<in> set sevs. \<not> HasReport s))))
   \<and> MergeVulnerabilityStatuses [] = CleanSeverity
   \<and> sevMap_at CleanSeverity < sevMap_at UnknownSeverity
   \<and> sevMap_at UnknownSeverity < sevMap_at NegligibleSeverity
   \<and> sevMap_at NegligibleSeverity < sevMap_at LowSeverity
   \<and> sevMap_at LowSeverity < sevMap_at MediumSeverity
   \<and> sevMap_at MediumSeverity < sevMap_at HighSeverity
   \<and> sevMap_at HighSeverity < sevMap_at CriticalSeverity
   \<and> sevMap_at CriticalSeverity < sevMap_at Defcon1Severity"
proof -
  let ?r = "snd (merge_scan sevs (\<lambda>_. False, CleanSeverity))"
  have mem: "?r = CleanSeverity \<or> (?r \<in> set sevs \<and> 0 < sevMap_at ?r)"
    by (rule snd_merge_scan_mem)
  have sev: "?r \<in> severities"
  proof -
    have "sevMap_at CleanSeverity = 1"
      by (simp add: sevMap_at_simps status_defs)
    with mem have "0 < sevMap_at ?r"
      by (elim disjE) simp_all
    then show ?thesis
      by (simp only: positive_severity)
  qed
  have ub: "\<forall>s \<in> set sevs. sevMap_at s \<le> sevMap_at ?r"
    using snd_merge_scan_max by blast
  have src: "?r \<in> set sevs \<or> (?r = CleanSeverity \<and> (\<forall>s \<in> set sevs. \<not> HasReport s))"
  proof (cases "?r \<in> set sevs")
    case True
    then show ?thesis by simp
  next
    case False
    with mem have c: "?r = CleanSeverity" by blast
    have "\<not> HasReport s" if s: "s \<in> set sevs" for s
    proof -
      have "sevMap_at s \<le> 1"
        using ub s c by (simp add: sevMap_at_simps status_defs)
      moreover have "s \<noteq> CleanSeverity"
        using s False c by auto
      ultimately show ?thesis
        by (simp add: HasReport_def sevMap_at_simps status_defs split: if_splits)
    qed
    with c show ?thesis by blast
  qed
  have order: "sevMap_at CleanSeverity < sevMap_at UnknownSeverity"
    "sevMap_at UnknownSeverity < sevMap_at NegligibleSeverity"
    "sevMap_at NegligibleSeverity < sevMap_at LowSeverity"
    "sevMap_at LowSeverity < sevMap_at MediumSeverity"
    "sevMap_at MediumSeverity < sevMap_at HighSeverity"
    "sevMap_at HighSeverity < sevMap_at CriticalSeverity"
    "sevMap_at CriticalSeverity < sevMap_at Defcon1Severity"
    by (simp_all add: sevMap_at_simps status_defs)
  have empty: "MergeVulnerabilityStatuses [] = CleanSeverity"
    by (simp add: MergeVulnerabilityStatuses_def overrides_def)
  show ?thesis
    using sev ub src order empty by (simp add: Merge_unfold)
qed

theorem MergeVulnerabilityStatuses_spec_witness:
  "ErrorVulnerabilityStatus \<in> set [CleanSeverity, ErrorVulnerabilityStatus, PendingVulnerabilityStatus]
   \<and> MergeVulnerabilityStatuses [CleanSeverity, ErrorVulnerabilityStatus, PendingVulnerabilityStatus]
       = ErrorVulnerabilityStatus
   \<and> ErrorVulnerabilityStatus \<notin> set [PendingVulnerabilityStatus, UnsupportedVulnerabilityStatus]
   \<and> UnsupportedVulnerabilityStatus \<in> set [PendingVulnerabilityStatus, UnsupportedVulnerabilityStatus]
   \<and> MergeVulnerabilityStatuses [PendingVulnerabilityStatus, UnsupportedVulnerabilityStatus]
       = UnsupportedVulnerabilityStatus
   \<and> ErrorVulnerabilityStatus \<notin> set [CleanSeverity, HighSeverity, PendingVulnerabilityStatus]
   \<and> UnsupportedVulnerabilityStatus \<notin> set [CleanSeverity, HighSeverity, PendingVulnerabilityStatus]
   \<and> PendingVulnerabilityStatus \<in> set [CleanSeverity, HighSeverity, PendingVulnerabilityStatus]
   \<and> MergeVulnerabilityStatuses [CleanSeverity, HighSeverity, PendingVulnerabilityStatus]
       = PendingVulnerabilityStatus
   \<and> ErrorVulnerabilityStatus \<notin> set [LowSeverity, HighSeverity]
   \<and> UnsupportedVulnerabilityStatus \<notin> set [LowSeverity, HighSeverity]
   \<and> PendingVulnerabilityStatus \<notin> set [LowSeverity, HighSeverity]
   \<and> MergeVulnerabilityStatuses [LowSeverity, HighSeverity] \<in> severities
   \<and> MergeVulnerabilityStatuses [LowSeverity, HighSeverity] \<in> set [LowSeverity, HighSeverity]
   \<and> sevMap_at LowSeverity \<le> sevMap_at (MergeVulnerabilityStatuses [LowSeverity, HighSeverity])
   \<and> sevMap_at HighSeverity \<le> sevMap_at (MergeVulnerabilityStatuses [LowSeverity, HighSeverity])"
proof -
  have e: "MergeVulnerabilityStatuses [''Low'', ''High''] = ''High''"
    by (simp add: MergeVulnerabilityStatuses_def overrides_def sevMap_at_simps status_defs)
  show ?thesis
    using MergeVulnerabilityStatuses_spec
        [of "[CleanSeverity, ErrorVulnerabilityStatus, PendingVulnerabilityStatus]"]
      MergeVulnerabilityStatuses_spec
        [of "[PendingVulnerabilityStatus, UnsupportedVulnerabilityStatus]"]
      MergeVulnerabilityStatuses_spec
        [of "[CleanSeverity, HighSeverity, PendingVulnerabilityStatus]"]
      MergeVulnerabilityStatuses_spec [of "[LowSeverity, HighSeverity]"]
    by (simp add: e sevMap_at_simps severities_def status_defs)
qed

text \<open>
  C4. Over the eleven enumerated statuses the merge is commutative and associative, returns
  a single status unchanged, and returns Clean for no status at all; the merge of a list is
  the binary merge of its head with the merge of its tail.
\<close>

theorem MergeVulnerabilityStatuses_algebra:
  assumes a: "a \<in> enumerated" and b: "b \<in> enumerated" and c: "c \<in> enumerated"
  shows "MergeVulnerabilityStatuses [a, b] = MergeVulnerabilityStatuses [b, a]
    \<and> MergeVulnerabilityStatuses [MergeVulnerabilityStatuses [a, b], c] =
        MergeVulnerabilityStatuses [a, MergeVulnerabilityStatuses [b, c]]
    \<and> MergeVulnerabilityStatuses [a] = a
    \<and> MergeVulnerabilityStatuses [] = CleanSeverity
    \<and> (\<forall>xs. set xs \<subseteq> enumerated \<longrightarrow>
          MergeVulnerabilityStatuses (a # xs) =
            MergeVulnerabilityStatuses [a, MergeVulnerabilityStatuses xs])"
proof (intro conjI allI impI)
  have ab: "set [a, b] \<subseteq> enumerated" and ba: "set [b, a] \<subseteq> enumerated"
    and bc: "set [b, c] \<subseteq> enumerated"
    using a b c by simp_all
  show "MergeVulnerabilityStatuses [a, b] = MergeVulnerabilityStatuses [b, a]"
    by (rule Merge_eqI [OF ab]) (simp add: ext_rank_Merge [OF ab] ext_rank_Merge [OF ba] max.commute insert_commute)
  have mab: "MergeVulnerabilityStatuses [a, b] \<in> enumerated"
    and mbc: "MergeVulnerabilityStatuses [b, c] \<in> enumerated"
    using Merge_enumerated [OF ab] Merge_enumerated [OF bc] by simp_all
  have l: "set [MergeVulnerabilityStatuses [a, b], c] \<subseteq> enumerated"
    and r: "set [a, MergeVulnerabilityStatuses [b, c]] \<subseteq> enumerated"
    using mab mbc a c by simp_all
  show "MergeVulnerabilityStatuses [MergeVulnerabilityStatuses [a, b], c] =
        MergeVulnerabilityStatuses [a, MergeVulnerabilityStatuses [b, c]]"
    by (rule Merge_eqI [OF l])
      (simp add: ext_rank_Merge [OF l] ext_rank_Merge [OF r] ext_rank_Merge [OF ab]
        ext_rank_Merge [OF bc] max.assoc max.left_commute)
  have sa: "set [a] \<subseteq> enumerated" using a by simp
  show "MergeVulnerabilityStatuses [a] = a"
    using a by (intro Merge_eqI [OF sa]) (simp add: ext_rank_Merge [OF sa] ext_rank_enumerated max_def)
  show "MergeVulnerabilityStatuses [] = CleanSeverity"
    by (simp add: MergeVulnerabilityStatuses_def overrides_def)
next
  fix xs assume xs: "set xs \<subseteq> enumerated"
  have axs: "set (a # xs) \<subseteq> enumerated" using a xs by simp
  have r: "set [a, MergeVulnerabilityStatuses xs] \<subseteq> enumerated"
    using a Merge_enumerated [OF xs] by simp
  let ?S = "insert 1 (ext_rank ` set xs)"
  have "insert 1 (ext_rank ` set (a # xs)) = insert (ext_rank a) ?S"
    by auto
  then have lhs: "ext_rank (MergeVulnerabilityStatuses (a # xs)) = max (ext_rank a) (Max ?S)"
    using Max_insert [of ?S "ext_rank a"] by (simp only: ext_rank_Merge [OF axs]) simp
  have "1 \<le> Max ?S" by simp
  then have rhs: "ext_rank (MergeVulnerabilityStatuses [a, MergeVulnerabilityStatuses xs]) =
      max (ext_rank a) (Max ?S)"
    by (simp add: ext_rank_Merge [OF r] ext_rank_Merge [OF xs] max_def)
  show "MergeVulnerabilityStatuses (a # xs) =
            MergeVulnerabilityStatuses [a, MergeVulnerabilityStatuses xs]"
    by (rule Merge_eqI [OF axs]) (simp only: lhs rhs)
qed

theorem MergeVulnerabilityStatuses_algebra_witness:
  "HighSeverity \<in> enumerated \<and> PendingVulnerabilityStatus \<in> enumerated
   \<and> UnsupportedVulnerabilityStatus \<in> enumerated
   \<and> MergeVulnerabilityStatuses [HighSeverity, PendingVulnerabilityStatus] =
       MergeVulnerabilityStatuses [PendingVulnerabilityStatus, HighSeverity]
   \<and> MergeVulnerabilityStatuses
         [MergeVulnerabilityStatuses [HighSeverity, PendingVulnerabilityStatus],
          UnsupportedVulnerabilityStatus] =
       MergeVulnerabilityStatuses
         [HighSeverity,
          MergeVulnerabilityStatuses [PendingVulnerabilityStatus, UnsupportedVulnerabilityStatus]]
   \<and> MergeVulnerabilityStatuses [HighSeverity] = HighSeverity
   \<and> set [LowSeverity, PendingVulnerabilityStatus] \<subseteq> enumerated
   \<and> MergeVulnerabilityStatuses [HighSeverity, LowSeverity, PendingVulnerabilityStatus] =
       MergeVulnerabilityStatuses
         [HighSeverity, MergeVulnerabilityStatuses [LowSeverity, PendingVulnerabilityStatus]]"
proof -
  have h: "HighSeverity \<in> enumerated" and p: "PendingVulnerabilityStatus \<in> enumerated"
    and u: "UnsupportedVulnerabilityStatus \<in> enumerated"
    and l: "set [LowSeverity, PendingVulnerabilityStatus] \<subseteq> enumerated"
    by (simp_all add: enumerated_def)
  show ?thesis
    using h p u l MergeVulnerabilityStatuses_algebra [OF h p u] by blast
qed

text \<open>
  C9. \<^verbatim>\<open>HasReport\<close> is true exactly for the eight severities; it is false for Error,
  Pending and Unsupported, and for every string outside the enumeration.
\<close>

theorem HasReport_iff_severity:
  "HasReport s = (s \<in> severities)
   \<and> \<not> HasReport ErrorVulnerabilityStatus
   \<and> \<not> HasReport PendingVulnerabilityStatus
   \<and> \<not> HasReport UnsupportedVulnerabilityStatus
   \<and> (s \<notin> enumerated \<longrightarrow> \<not> HasReport s)"
  by (simp add: HasReport_def sevMap_at_simps severities_def enumerated_def status_defs)

theorem HasReport_iff_severity_witness:
  "''Bogus'' \<notin> enumerated \<and> \<not> HasReport ''Bogus''
   \<and> HighSeverity \<in> severities \<and> HasReport HighSeverity"
  using HasReport_iff_severity [of "''Bogus''"] HasReport_iff_severity [of HighSeverity]
  by (simp add: enumerated_def severities_def status_defs)

section \<open>Properties of the rate-limit engine\<close>

text \<open>
  C10. When \<^verbatim>\<open>GetRateLimit\<close> returns \<^verbatim>\<open>nil\<close> for the account and action,
  \<^verbatim>\<open>RateLimitAllows\<close> returns true, a result with \<^verbatim>\<open>Remaining = math.MaxInt64\<close> and
  \<^verbatim>\<open>RetryAfter = -1\<close>, and a nil error, whatever the amount; the limiter is not called:
  the redis state and the log of limiter calls are unchanged, and the outcome is the same for
  every limiter.
\<close>

theorem RateLimitAllows_without_limit:
  assumes "Driver e account action = None"
  shows "RateLimitAllows e account action amount rs =
      ((True,
        \<lparr>Limit = \<lparr>Rate = 9223372036854775807, Burst = 0, Period = 1000000000\<rparr>,
         Allowed = 0, Remaining = 9223372036854775807, ResetAfter = 0, RetryAfter = - 1\<rparr>,
        None), rs)
    \<and> limiter_calls (snd (RateLimitAllows e account action amount rs)) = limiter_calls rs
    \<and> RateLimitAllows (e\<lparr>AllowN := limiter\<rparr>) account action amount rs =
        RateLimitAllows e account action amount rs"
  using assms by (simp add: RateLimitAllows_def MaxInt64_def Second_def)

theorem RateLimitAllows_without_limit_witness:
  "Driver \<lparr>Driver = (\<lambda>_ _. None), AllowN = (\<lambda>_ _ _ r. (Inl (Failure ''redis down''), Suc r))\<rparr>
      \<lparr>Name = ''test1'', AuthTenantID = ''tenant1''\<rparr> ''pullblob'' = None
   \<and> RateLimitAllows \<lparr>Driver = (\<lambda>_ _. None), AllowN = (\<lambda>_ _ _ r. (Inl (Failure ''redis down''), Suc r))\<rparr>
      \<lparr>Name = ''test1'', AuthTenantID = ''tenant1''\<rparr> ''pullblob'' 5
      \<lparr>redis_state = (0::nat), limiter_calls = []\<rparr> =
     ((True,
       \<lparr>Limit = \<lparr>Rate = 9223372036854775807, Burst = 0, Period = 1000000000\<rparr>,
        Allowed = 0, Remaining = 9223372036854775807, ResetAfter = 0, RetryAfter = - 1\<rparr>,
       None),
      \<lparr>redis_state = 0, limiter_calls = []\<rparr>)"
proof -
  let ?e = "\<lparr>Driver = (\<lambda>_ _. None), AllowN = (\<lambda>_ _ _ r. (Inl (Failure ''redis down''), Suc r))\<rparr>
    :: nat RateLimitEngine"
  let ?a = "\<lparr>Name = ''test1'', AuthTenantID = ''tenant1''\<rparr>"
  have h: "Driver ?e ?a ''pullblob'' = None" by simp
  have v: "RateLimitAllows ?e ?a ''pullblob'' 5 \<lparr>redis_state = (0::nat), limiter_calls = []\<rparr> =
     ((True,
       \<lparr>Limit = \<lparr>Rate = 9223372036854775807, Burst = 0, Period = 1000000000\<rparr>,
        Allowed = 0, Remaining = 9223372036854775807, ResetAfter = 0, RetryAfter = - 1\<rparr>,
       None),
      \<lparr>redis_state = 0, limiter_calls = []\<rparr>)"
    by (simp add: RateLimitAllows_def MaxInt64_def Second_def)
  show ?thesis
    using h v RateLimitAllows_without_limit [OF h, of 5 "\<lparr>redis_state = 0, limiter_calls = []\<rparr>"]
    by simp
qed

section \<open>Properties of the filesystem storage driver\<close>

lemma ListStorageContents_error:
  "ListStorageContents d account = (storedBlobs, storedManifests, Some err) \<Longrightarrow>
     storedBlobs = [] \<and> storedManifests = []"
  by (auto simp add: ListStorageContents_def split: sum.splits)

text \<open>
  C8. \<^verbatim>\<open>CleanupAccount\<close> refuses while objects remain: when \<^verbatim>\<open>ListStorageContents\<close>
  reports a blob, the error names the first blob; when it reports no blob but a manifest,
  the error names the first manifest; the result is \<^verbatim>\<open>nil\<close> exactly when no blob and no
  manifest is reported and the listing returned no error. A failed listing reports neither
  blobs nor manifests, and its error is returned.
\<close>

theorem CleanupAccount_refuses:
  assumes "ListStorageContents d account = (storedBlobs, storedManifests, err)"
  shows "(storedBlobs \<noteq> [] \<longrightarrow>
            CleanupAccount d account = Some (UndeletedBlob (StorageID (hd storedBlobs))))
    \<and> (storedBlobs = [] \<and> storedManifests \<noteq> [] \<longrightarrow>
            CleanupAccount d account =
              Some (UndeletedManifest (RepoName (hd storedManifests)) (Digest (hd storedManifests))))
    \<and> (CleanupAccount d account = None \<longleftrightarrow> storedBlobs = [] \<and> storedManifests = [] \<and> err = None)
    \<and> (err \<noteq> None \<longrightarrow> storedBlobs = [] \<and> storedManifests = [] \<and> CleanupAccount d account = err)"
proof -
  have e: "storedBlobs = [] \<and> storedManifests = []" if "err \<noteq> None"
    using that assms ListStorageContents_error by (cases err) auto
  show ?thesis
    using assms e by (auto simp add: CleanupAccount_def hd_conv_nth)
qed

theorem CleanupAccount_refuses_witness:
  "ListStorageContents example_driver example_account =
     ([\<lparr>StorageID = ''blob1''\<rparr>], [\<lparr>RepoName = ''repo1'', Digest = ''sha256:abc''\<rparr>], None)
   \<and> [\<lparr>StorageID = ''blob1''\<rparr>] \<noteq> []
   \<and> CleanupAccount example_driver example_account = Some (UndeletedBlob ''blob1'')"
proof -
  have l: "ListStorageContents example_driver example_account =
     ([\<lparr>StorageID = ''blob1''\<rparr>], [\<lparr>RepoName = ''repo1'', Digest = ''sha256:abc''\<rparr>], None)"
    by (simp add: ListStorageContents_def getBlobs_def getManifests_def getRepoManifests_def
        example_driver_def example_account_def blobBasePath_def manifestBasePath_def
        HasSuffix_def suffix_def)
  show ?thesis
    using l CleanupAccount_refuses [OF l] by simp
qed

section \<open>Properties of paginated queries\<close>

declare FormatUint.simps [simp del]

lemma is_digit_simps: "is_digit c = (c \<in> set ''0123456789'')"
  unfolding is_digit_def by (cases c) (simp, presburger?)

lemma digit_value_less: "is_digit c \<Longrightarrow> digit_value c < 10"
  by (auto simp add: is_digit_simps digit_value_def)

lemma decimal_from_ge: "n \<le> decimal_from n cs"
proof (induction cs arbitrary: n)
  case Nil
  show ?case by simp
next
  case (Cons c cs)
  have "n \<le> n * 10 + digit_value c" by simp
  also have "\<dots> \<le> decimal_from (n * 10 + digit_value c) cs" by (rule Cons.IH)
  finally show ?case by simp
qed

lemma ParseUint_loop_digits:
  "\<forall>c \<in> set cs. is_digit c \<Longrightarrow> n \<le> maxUint64 \<Longrightarrow>
   ParseUint_loop cs n =
     (if decimal_from n cs \<le> maxUint64 then Inr (decimal_from n cs) else Inl ErrRange)"
proof (induction cs arbitrary: n)
  case Nil
  then show ?case by simp
next
  case (Cons c cs)
  then have d: "is_digit c" and ds: "\<forall>c \<in> set cs. is_digit c" by simp_all
  note n = \<open>n \<le> maxUint64\<close>
  have d10: "digit_value c < 10" using d by (rule digit_value_less)
  let ?m = "n * 10 + digit_value c"
  have ge: "?m \<le> decimal_from ?m cs" by (rule decimal_from_ge)
  show ?case
  proof (cases "n \<ge> maxUint64 div 10 + 1")
    case True
    then have "?m > maxUint64" by (simp add: maxUint64_def)
    with ge True d show ?thesis by simp
  next
    case False
    then have n10: "(n * 10) mod 2 ^ 64 = n * 10"
      by (simp add: maxUint64_def)
    show ?thesis
    proof (cases "?m \<le> maxUint64")
      case True
      then have "?m mod 2 ^ 64 = ?m" by (simp add: maxUint64_def)
      with True False d n10 Cons.IH [OF ds True] show ?thesis
        by (simp add: Let_def)
    next
      case over: False
      have "?m < 2 ^ 64 + 10" using False d10 by (simp add: maxUint64_def)
      moreover have "2 ^ 64 \<le> ?m" using over by (simp add: maxUint64_def)
      ultimately have "?m mod 2 ^ 64 = ?m - 2 ^ 64"
        by (simp add: mod_if)  
      moreover have "?m - 2 ^ 64 < n * 10" using \<open>?m < 2 ^ 64 + 10\<close> d10 over
        by (simp add: maxUint64_def)
      ultimately show ?thesis
        using over ge False d n10 by (simp add: Let_def)
    qed
  qed
qed

lemma ParseUint_loop_nondigit:
  "\<not> (\<forall>c \<in> set cs. is_digit c) \<Longrightarrow> \<exists>cause. ParseUint_loop cs n = Inl cause"
  by (induction cs arbitrary: n) (auto simp add: Let_def)

lemma decimal_from_append:
  "decimal_from n (xs @ ys) = decimal_from (decimal_from n xs) ys"
  by (induction xs arbitrary: n) simp_all

lemma digit_roundtrip: "n < 10 \<Longrightarrow> digit_value (''0123456789'' ! n) = n"
proof -
  assume "n < 10"
  then have "n \<in> {0, 1, 2, 3, 4, 5, 6, 7, 8, 9}" by auto
  then show ?thesis by (auto simp add: digit_value_def)
qed

lemma FormatUint_decimal: "decimal_value (FormatUint n) = n"
  unfolding decimal_value_def
proof (induction n rule: FormatUint.induct)
  case (1 n)
  show ?case
  proof (cases "n < 10")
    case True
    then show ?thesis using digit_roundtrip [of n] by (subst FormatUint.simps) simp
  next
    case False
    with 1 have ih: "decimal_from 0 (FormatUint (n div 10)) = n div 10" by simp
    have "decimal_from 0 (FormatUint n) =
        decimal_from 0 (FormatUint (n div 10) @ [''0123456789'' ! (n mod 10)])"
      using False by (subst FormatUint.simps) simp
    also have "\<dots> = (n div 10) * 10 + n mod 10"
      using digit_roundtrip [of "n mod 10"] by (simp add: decimal_from_append ih)
    finally show ?thesis by simp
  qed
qed

lemma Replace1_first:
  assumes "\<forall>i < length pre. \<not> prefix old (drop i (pre @ old @ post))"
  shows "Replace1 (pre @ old @ post) old new = pre @ new @ post"
  using assms
proof (induction pre)
  case Nil
  have p: "prefix old (old @ post)" by simp
  show ?case
  proof (cases "old @ post")
    case Nil
    then show ?thesis by simp
  next
    case (Cons a list)
    with p have "Replace1 (old @ post) old new = new @ drop (length old) (old @ post)"
      by simp
    then show ?thesis by simp
  qed
next
  case (Cons c pre)
  have np: "\<not> prefix old (c # pre @ old @ post)"
    using Cons.prems by (auto dest: spec [of _ 0])
  have "\<forall>i < length pre. \<not> prefix old (drop i (pre @ old @ post))"
    using Cons.prems by (auto dest: spec [of _ "Suc i" for i])
  then have "Replace1 (pre @ old @ post) old new = pre @ new @ post"
    by (rule Cons.IH)
  with np show ?case by simp
qed

lemma ParseUint_cases:
  "ParseUint s =
     (if s = '''' then Inl (NumError s ErrSyntax)
      else if \<forall>c \<in> set s. is_digit c then
        (if decimal_value s \<le> maxUint64 then Inr (decimal_value s)
         else Inl (NumError s ErrRange))
      else Inl (NumError s (case ParseUint_loop s 0 of Inl cause \<Rightarrow> cause | Inr _ \<Rightarrow> ErrSyntax)))"
proof (cases "\<forall>c \<in> set s. is_digit c")
  case True
  then show ?thesis
    using ParseUint_loop_digits [of s 0]
    by (simp add: ParseUint_def decimal_value_def)
next
  case False
  then obtain cause where "ParseUint_loop s 0 = Inl cause"
    using ParseUint_loop_nondigit by blast
  with False show ?thesis
    by (auto simp add: ParseUint_def)
qed

text \<open>
  C7 (as amended). \<^verbatim>\<open>Prepare\<close> takes the limit 1000 when \<^verbatim>\<open>?limit=\<close> is absent or
  empty, and the smaller of the requested value and 1000 when the value is a decimal number
  that fits in 64 bits. It replaces the first \<^verbatim>\<open>$LIMIT\<close> of the SQL text by the limit
  plus one. It replaces the first \<^verbatim>\<open>$CONDITION\<close> by \<^verbatim>\<open>TRUE\<close> and keeps the bind values
  when no marker is given, and by \<^verbatim>\<open>MarkerField > $2\<close>, appending the marker to the bind
  values, when a marker is given. A limit that is not a decimal number, or one too large for
  64 bits, makes \<^verbatim>\<open>Prepare\<close> return the error of \<^verbatim>\<open>strconv.ParseUint\<close>.
\<close>

theorem Prepare_spec:
  fixes q :: "'a paginatedQuery"
  shows
  "(let limitStr = Values_Get (Options q) ''limit'';
        marker = Values_Get (Options q) ''marker'';
        prepared = (\<lambda>limit.
          Inr (Replace1 (Replace1 (SQL q) ''$LIMIT'' (FormatUint (limit + 1))) ''$CONDITION''
                 (if marker = '''' then ''TRUE'' else MarkerField q @ '' > $2''),
               if marker = '''' then BindValues q else BindValues q @ [StringValue marker],
               limit))
    in (limitStr = '''' \<longrightarrow> Prepare q = prepared 1000)
     \<and> (limitStr \<noteq> '''' \<and> (\<forall>c \<in> set limitStr. is_digit c)
          \<and> decimal_value limitStr < 2 ^ 64 \<longrightarrow>
            Prepare q = prepared (min (decimal_value limitStr) 1000))
     \<and> (limitStr \<noteq> '''' \<and> \<not> (\<forall>c \<in> set limitStr. is_digit c) \<longrightarrow>
            (\<exists>cause. Prepare q = Inl (NumError limitStr cause)))
     \<and> (limitStr \<noteq> '''' \<and> (\<forall>c \<in> set limitStr. is_digit c)
          \<and> 2 ^ 64 \<le> decimal_value limitStr \<longrightarrow>
            Prepare q = Inl (NumError limitStr ErrRange)))"
proof -
  have m: "(limit + 1) mod 2 ^ 64 = limit + 1" if "limit \<le> 1000" for limit :: nat
    using that by simp
  have m1: "(min v 1000 + 1) mod 2 ^ 64 = min v 1000 + 1" for v :: nat
    by (rule m) simp
  have m2: "(1001::nat) mod 2 ^ 64 = 1001" by simp
  show ?thesis
    unfolding Let_def Prepare_def ParseUint_cases
    by (auto simp add: m1 m2 min_def not_le maxUint64_def simp del: Replace1.simps)
qed

theorem Prepare_spec_witness:
  "Values_Get (Options example_query) ''limit'' = ''3''
   \<and> ''3'' \<noteq> '''' \<and> is_digit (CHR ''3'') \<and> decimal_value ''3'' < 2 ^ 64
   \<and> Prepare example_query =
       Inr (''SELECT * FROM accounts WHERE name > $2 ORDER BY name LIMIT 4'',
            [OtherValue (), StringValue ''test1''], 3)"
proof -
  have l: "Values_Get (Options example_query) ''limit'' = ''3''"
    and k: "Values_Get (Options example_query) ''marker'' = ''test1''"
    by (simp_all add: example_query_def Values_Get_def)
  have d: "(\<forall>c \<in> set ''3''. is_digit c)" "decimal_value ''3'' = 3"
    by (simp_all add: is_digit_def decimal_value_def digit_value_def)
  have f: "FormatUint 4 = ''4''" by (simp add: FormatUint.simps)
  have r: "Replace1 (Replace1 (SQL example_query) ''$LIMIT'' ''4'') ''$CONDITION'' ''name > $2''
      = ''SELECT * FROM accounts WHERE name > $2 ORDER BY name LIMIT 4''"
    by (simp add: example_query_def)
  show ?thesis
    using Prepare_spec [of example_query] l k d f r
    by (simp add: Let_def example_query_def)
qed

text \<open>
  The claim as first stated takes the smaller of the requested value and 1000 for every
  numeric limit. For the limit \<open>2\<^sup>6\<^sup>4\<close> that would be 1000, but \<^verbatim>\<open>Prepare\<close> returns the
  range error of \<^verbatim>\<open>strconv.ParseUint\<close>.
\<close>

theorem Prepare_limit_counterexample:
  "decimal_value ''18446744073709551616'' = 18446744073709551616
   \<and> min (decimal_value ''18446744073709551616'') 1000 = 1000
   \<and> Prepare example_query_overflow = Inl (NumError ''18446744073709551616'' ErrRange)"
  by (simp add: Prepare_def ParseUint_def example_query_overflow_def Values_Get_def
      is_digit_def digit_value_def decimal_value_def maxUint64_def Let_def)

section \<open>Properties of the blob-mount sweep\<close>

lemmas query_defs = blobMountSweepSearchQuery_def search_where_def sql_less_def
  failed_manifest_repo_ids_def sorts_before_def referenced_blob_ids_def blobMountMarkQuery_def
  blobMountUnmarkQuery_def sweep_where_def mount_is_referenced_def blobMountSweepMarkedQuery_def
  blobMountSweepDoneQuery_def

subsection \<open>The search statement\<close>

lemma sorts_before_asym: "sorts_before a b \<Longrightarrow> \<not> sorts_before b a"
  by (auto simp add: sorts_before_def split: option.splits)

lemma sorts_before_negtrans:
  "\<not> sorts_before a b \<Longrightarrow> \<not> sorts_before b c \<Longrightarrow> \<not> sorts_before a c"
  by (auto simp add: sorts_before_def split: option.splits)

lemma order_limit_1_None: "order_limit_1 rs = None \<longleftrightarrow> rs = []"
  by (cases rs) (auto split: option.splits)

lemma order_limit_1_Some:
  "order_limit_1 rs = Some r \<Longrightarrow>
     r \<in> set rs \<and>
     (\<forall>r' \<in> set rs. \<not> sorts_before (NextBlobMountSweepAt r') (NextBlobMountSweepAt r))"
proof (induction rs arbitrary: r)
  case Nil
  then show ?case by simp
next
  case (Cons a rs)
  show ?case
  proof (cases "order_limit_1 rs")
    case None
    then have "rs = []" by (simp add: order_limit_1_None)
    with Cons.prems None show ?thesis
      by (auto simp add: sorts_before_def split: option.splits)
  next
    case (Some r0)
    from Cons.IH [OF Some] have r0: "r0 \<in> set rs"
      and min0: "\<forall>r' \<in> set rs.
        \<not> sorts_before (NextBlobMountSweepAt r') (NextBlobMountSweepAt r0)"
      by simp_all
    show ?thesis
    proof (cases "sorts_before (NextBlobMountSweepAt r0) (NextBlobMountSweepAt a)")
      case True
      with Some Cons.prems have "r = r0" by simp
      with True r0 min0 show ?thesis
        by (auto dest: sorts_before_asym)
    next
      case False
      with Some Cons.prems have "r = a" by simp
      with False min0 show ?thesis
        by (auto intro: sorts_before_negtrans simp add: sorts_before_def split: option.splits)
    qed
  qed
qed

lemma search_None:
  "blobMountSweepSearchQuery d now = None \<longleftrightarrow> (\<forall>r \<in> set (repos d). \<not> search_where d now r)"
  by (simp add: blobMountSweepSearchQuery_def order_limit_1_None filter_empty_conv)

lemma search_Some:
  assumes "blobMountSweepSearchQuery d now = Some r"
  shows "r \<in> set (repos d)" and "search_where d now r"
    and "\<forall>r' \<in> set (repos d). search_where d now r' \<longrightarrow>
           \<not> sorts_before (NextBlobMountSweepAt r') (NextBlobMountSweepAt r)"
  using order_limit_1_Some [OF assms [unfolded blobMountSweepSearchQuery_def]]
  by auto

subsection \<open>What the statements keep\<close>

lemma mark_refs [simp]:
  "manifest_blob_refs (blobMountMarkQuery r t d) = manifest_blob_refs d"
  by (simp add: blobMountMarkQuery_def)

lemma unmark_refs [simp]:
  "manifest_blob_refs (blobMountUnmarkQuery r d) = manifest_blob_refs d"
  by (simp add: blobMountUnmarkQuery_def)

lemma done_refs [simp]:
  "manifest_blob_refs (blobMountSweepDoneQuery r t d) = manifest_blob_refs d"
  by (simp add: blobMountSweepDoneQuery_def)

lemma done_mounts [simp]:
  "blob_mounts (blobMountSweepDoneQuery r t d) = blob_mounts d"
  by (simp add: blobMountSweepDoneQuery_def)

lemma mark_repos [simp]: "repos (blobMountMarkQuery r t d) = repos d"
  by (simp add: blobMountMarkQuery_def)

lemma unmark_repos [simp]: "repos (blobMountUnmarkQuery r d) = repos d"
  by (simp add: blobMountUnmarkQuery_def)

lemma referenced_blob_ids_mark [simp]:
  "referenced_blob_ids (blobMountMarkQuery r t d) r' = referenced_blob_ids d r'"
  by (simp add: referenced_blob_ids_def)

lemma referenced_blob_ids_unmark [simp]:
  "referenced_blob_ids (blobMountUnmarkQuery r d) r' = referenced_blob_ids d r'"
  by (simp add: referenced_blob_ids_def)

lemma mount_is_referenced_iff:
  "mount_is_referenced d m \<longleftrightarrow>
     mount_BlobID m \<in> set (referenced_blob_ids d (mount_RepositoryID m))"
proof
  assume "mount_is_referenced d m"
  then obtain ref where "ref \<in> set (manifest_blob_refs d)"
    and "ref_BlobID ref = mount_BlobID m" and "ref_RepositoryID ref = mount_RepositoryID m"
    unfolding mount_is_referenced_def by blast
  then have "ref \<in> set (filter (\<lambda>ref. ref_RepositoryID ref = mount_RepositoryID m)
      (manifest_blob_refs d))" by simp
  then have "ref_BlobID ref \<in> set (referenced_blob_ids d (mount_RepositoryID m))"
    unfolding referenced_blob_ids_def by (simp only: set_map) (rule imageI)
  with \<open>ref_BlobID ref = mount_BlobID m\<close> show
    "mount_BlobID m \<in> set (referenced_blob_ids d (mount_RepositoryID m))" by simp
next
  assume "mount_BlobID m \<in> set (referenced_blob_ids d (mount_RepositoryID m))"
  then show "mount_is_referenced d m"
    unfolding mount_is_referenced_def referenced_blob_ids_def by auto
qed

lemma sweep_Inr:
  assumes "blobMountSweepMarkedQuery r now d = Inr (n, d')"
  shows "manifest_blob_refs d' = manifest_blob_refs d"
    and "repos d' = repos d"
    and "blob_mounts d' = filter (\<lambda>m. \<not> sweep_where r now m) (blob_mounts d)"
    and "\<forall>m \<in> set (blob_mounts d). sweep_where r now m \<longrightarrow> \<not> mount_is_referenced d m"
    and "n = length (filter (sweep_where r now) (blob_mounts d))"
proof -
  let ?doomed = "filter (sweep_where r now) (blob_mounts d)"
  have nofk: "\<not> (\<exists>m \<in> set ?doomed. mount_is_referenced d m)"
    using assms unfolding blobMountSweepMarkedQuery_def Let_def
    by (cases "\<exists>m \<in> set ?doomed. mount_is_referenced d m") simp_all
  then have eq: "Inr (length ?doomed,
      d\<lparr>blob_mounts := filter (\<lambda>m. \<not> sweep_where r now m) (blob_mounts d)\<rparr>) =
      (Inr (n, d') :: error + nat \<times> DB)"
    using assms unfolding blobMountSweepMarkedQuery_def Let_def by simp
  then have d': "d' = d\<lparr>blob_mounts := filter (\<lambda>m. \<not> sweep_where r now m) (blob_mounts d)\<rparr>"
    and n: "n = length ?doomed" by simp_all
  show "manifest_blob_refs d' = manifest_blob_refs d" "repos d' = repos d"
    "blob_mounts d' = filter (\<lambda>m. \<not> sweep_where r now m) (blob_mounts d)"
    by (simp_all add: d')
  show "\<forall>m \<in> set (blob_mounts d). sweep_where r now m \<longrightarrow> \<not> mount_is_referenced d m"
    using nofk by simp
  show "n = length (filter (sweep_where r now) (blob_mounts d))" by (rule n)
qed

text \<open>After the unmark statement no referenced blob mount of the repository is marked.\<close>

lemma unmark_clears:
  assumes "m \<in> set (blob_mounts (blobMountUnmarkQuery r d))"
    and "mount_RepositoryID m = r"
    and "mount_BlobID m \<in> set (referenced_blob_ids d r)"
  shows "CanBeDeletedAt m = None"
proof -
  let ?c = "\<lambda>m. mount_RepositoryID m = r \<and> mount_BlobID m \<in> set (referenced_blob_ids d r)"
  from assms(1) obtain m0 where m0: "m0 \<in> set (blob_mounts d)"
    and m: "m = (if ?c m0 then m0\<lparr>CanBeDeletedAt := None\<rparr> else m0)"
    unfolding blobMountUnmarkQuery_def by auto
  show ?thesis
  proof (cases "?c m0")
    case True
    with m show ?thesis by simp
  next
    case False
    with m have "m = m0" by simp
    with False assms(2,3) show ?thesis by simp
  qed
qed

lemma sweep_after_unmark_spares_referenced:
  assumes "m \<in> set (blob_mounts (blobMountUnmarkQuery r d))"
    and "sweep_where r now m"
  shows "\<not> mount_is_referenced (blobMountUnmarkQuery r d) m"
proof
  assume "mount_is_referenced (blobMountUnmarkQuery r d) m"
  then have "mount_BlobID m \<in> set (referenced_blob_ids d (mount_RepositoryID m))"
    by (simp add: mount_is_referenced_iff)
  moreover have "mount_RepositoryID m = r"
    using assms(2) by (simp add: sweep_where_def)
  ultimately have "CanBeDeletedAt m = None"
    using unmark_clears [OF assms(1)] by simp
  with assms(2) show False
    by (simp add: sweep_where_def sql_less_def)
qed

lemma sweep_after_unmark_succeeds:
  "\<exists>n d'. blobMountSweepMarkedQuery r now (blobMountUnmarkQuery r d) = Inr (n, d')"
proof -
  let ?d = "blobMountUnmarkQuery r d"
  have "\<not> (\<exists>m \<in> set (filter (sweep_where r now) (blob_mounts ?d)). mount_is_referenced ?d m)"
    using sweep_after_unmark_spares_referenced [of _ r d now] by auto
  then show ?thesis
    unfolding blobMountSweepMarkedQuery_def Let_def by simp
qed

subsection \<open>The outcomes of one run\<close>

lemma sweep_body_cases [case_names search_failed no_rows mark_failed unmark_failed sweep_failed
    rows_affected_failed done_failed success]:
  fixes j :: Janitor and d :: DB
  defines "t1 \<equiv> timeNow j 1 + 30 * Minute"
  assumes "\<And>err. fails j SearchStmt = Some err \<Longrightarrow>
        sweep_body j d = (zero_Repository, Some err, d) \<Longrightarrow> P"
    and "fails j SearchStmt = None \<Longrightarrow> blobMountSweepSearchQuery d (timeNow j 0) = None \<Longrightarrow>
        sweep_body j d = (zero_Repository, Some ErrNoRows, d) \<Longrightarrow> P"
    and "\<And>repo err. fails j SearchStmt = None \<Longrightarrow>
        blobMountSweepSearchQuery d (timeNow j 0) = Some repo \<Longrightarrow>
        fails j MarkStmt = Some err \<Longrightarrow>
        sweep_body j d = (repo, Some err, d) \<Longrightarrow> P"
    and "\<And>repo err. fails j SearchStmt = None \<Longrightarrow>
        blobMountSweepSearchQuery d (timeNow j 0) = Some repo \<Longrightarrow>
        fails j MarkStmt = None \<Longrightarrow> fails j UnmarkStmt = Some err \<Longrightarrow>
        sweep_body j d = (repo, Some err, blobMountMarkQuery (ID repo) t1 d) \<Longrightarrow> P"
    and "\<And>repo err. fails j SearchStmt = None \<Longrightarrow>
        blobMountSweepSearchQuery d (timeNow j 0) = Some repo \<Longrightarrow>
        fails j MarkStmt = None \<Longrightarrow> fails j UnmarkStmt = None \<Longrightarrow>
        fails j SweepStmt = Some err \<Longrightarrow>
        sweep_body j d =
          (repo, Some err, blobMountUnmarkQuery (ID repo) (blobMountMarkQuery (ID repo) t1 d))
        \<Longrightarrow> P"
    and "\<And>repo err n d3. fails j SearchStmt = None \<Longrightarrow>
        blobMountSweepSearchQuery d (timeNow j 0) = Some repo \<Longrightarrow>
        fails j MarkStmt = None \<Longrightarrow> fails j UnmarkStmt = None \<Longrightarrow>
        fails j SweepStmt = None \<Longrightarrow>
        blobMountSweepMarkedQuery (ID repo) (timeNow j 2)
          (blobMountUnmarkQuery (ID repo) (blobMountMarkQuery (ID repo) t1 d)) = Inr (n, d3) \<Longrightarrow>
        fails j RowsAffectedCall = Some err \<Longrightarrow>
        sweep_body j d = (repo, Some err, d3) \<Longrightarrow> P"
    and "\<And>repo err n d3. fails j SearchStmt = None \<Longrightarrow>
        blobMountSweepSearchQuery d (timeNow j 0) = Some repo \<Longrightarrow>
        fails j MarkStmt = None \<Longrightarrow> fails j UnmarkStmt = None \<Longrightarrow>
        fails j SweepStmt = None \<Longrightarrow>
        blobMountSweepMarkedQuery (ID repo) (timeNow j 2)
          (blobMountUnmarkQuery (ID repo) (blobMountMarkQuery (ID repo) t1 d)) = Inr (n, d3) \<Longrightarrow>
        fails j RowsAffectedCall = None \<Longrightarrow> fails j DoneStmt = Some err \<Longrightarrow>
        sweep_body j d = (repo, Some err, d3) \<Longrightarrow> P"
    and "\<And>repo n d3. fails j SearchStmt = None \<Longrightarrow>
        blobMountSweepSearchQuery d (timeNow j 0) = Some repo \<Longrightarrow>
        fails j MarkStmt = None \<Longrightarrow> fails j UnmarkStmt = None \<Longrightarrow>
        fails j SweepStmt = None \<Longrightarrow>
        blobMountSweepMarkedQuery (ID repo) (timeNow j 2)
          (blobMountUnmarkQuery (ID repo) (blobMountMarkQuery (ID repo) t1 d)) = Inr (n, d3) \<Longrightarrow>
        fails j RowsAffectedCall = None \<Longrightarrow> fails j DoneStmt = None \<Longrightarrow>
        sweep_body j d =
          (repo, None, blobMountSweepDoneQuery (ID repo) (timeNow j 3 + 1 * Hour) d3) \<Longrightarrow> P"
  shows P
proof (cases "fails j SearchStmt")
  case (Some err)
  then have "sweep_body j d = (zero_Repository, Some err, d)"
    by (simp add: sweep_body_def SelectOne_search_def)
  with Some show P by (rule assms(2))
next
  case s: None
  show P
  proof (cases "blobMountSweepSearchQuery d (timeNow j 0)")
    case None
    with s have "sweep_body j d = (zero_Repository, Some ErrNoRows, d)"
      by (simp add: sweep_body_def SelectOne_search_def)
    with s None show P by (rule assms(3))
  next
    case (Some repo)
    with s have sel: "SelectOne_search j d = Inr repo"
      by (simp add: SelectOne_search_def)
    let ?d1 = "blobMountMarkQuery (ID repo) t1 d"
    let ?d2 = "blobMountUnmarkQuery (ID repo) ?d1"
    show P
    proof (cases "fails j MarkStmt")
      case (Some err)
      with sel have "sweep_body j d = (repo, Some err, d)"
        by (simp add: sweep_body_def)
      with s \<open>blobMountSweepSearchQuery d (timeNow j 0) = Some repo\<close> Some show P
        by (rule assms(4))
    next
      case m: None
      show P
      proof (cases "fails j UnmarkStmt")
        case (Some err)
        with sel m have "sweep_body j d = (repo, Some err, ?d1)"
          by (simp add: sweep_body_def t1_def)
        with s \<open>blobMountSweepSearchQuery d (timeNow j 0) = Some repo\<close> m Some show P
          by (rule assms(5))
      next
        case u: None
        show P
        proof (cases "fails j SweepStmt")
          case (Some err)
          with sel m u have "sweep_body j d = (repo, Some err, ?d2)"
            by (simp add: sweep_body_def t1_def)
          with s \<open>blobMountSweepSearchQuery d (timeNow j 0) = Some repo\<close> m u Some show P
            by (rule assms(6))
        next
          case sw: None
          obtain n d3 where q: "blobMountSweepMarkedQuery (ID repo) (timeNow j 2) ?d2 = Inr (n, d3)"
            using sweep_after_unmark_succeeds by blast
          show P
          proof (cases "fails j RowsAffectedCall")
            case (Some err)
            with sel m u sw q have "sweep_body j d = (repo, Some err, d3)"
              by (simp add: sweep_body_def t1_def)
            with s \<open>blobMountSweepSearchQuery d (timeNow j 0) = Some repo\<close> m u sw q Some
            show P by (rule assms(7))
          next
            case ra: None
            show P
            proof (cases "fails j DoneStmt")
              case (Some err)
              with sel m u sw q ra have "sweep_body j d = (repo, Some err, d3)"
                by (simp add: sweep_body_def t1_def)
              with s \<open>blobMountSweepSearchQuery d (timeNow j 0) = Some repo\<close> m u sw q ra Some
              show P by (rule assms(8))
            next
              case dn: None
              with sel m u sw q ra have "sweep_body j d =
                  (repo, None, blobMountSweepDoneQuery (ID repo) (timeNow j 3 + 1 * Hour) d3)"
                by (simp add: sweep_body_def t1_def)
              with s \<open>blobMountSweepSearchQuery d (timeNow j 0) = Some repo\<close> m u sw q ra dn
              show P by (rule assms(9))
            qed
          qed
        qed
      qed
    qed
  qed
qed

lemma Sweep_unfold:
  assumes "sweep_body j (db w) = (repo, returnErr, d')"
  shows "SweepBlobMountsInNextRepo j w =
     (case returnErr of
        None \<Rightarrow>
          (None,
           w\<lparr>db := d', sweepBlobMountsSuccessCounter := sweepBlobMountsSuccessCounter w + 1\<rparr>)
      | Some err \<Rightarrow>
          if err \<noteq> ErrNoRows then
            (Some (WhileSweeping (FullName repo) err),
             w\<lparr>db := d', sweepBlobMountsFailedCounter := sweepBlobMountsFailedCounter w + 1\<rparr>)
          else (Some err, w\<lparr>db := d'\<rparr>))"
  by (simp add: SweepBlobMountsInNextRepo_def assms)

lemma Sweep_db:
  assumes "sweep_body j (db w) = (repo, returnErr, d')"
  shows "db (snd (SweepBlobMountsInNextRepo j w)) = d'"
  by (cases returnErr) (simp_all add: Sweep_unfold [OF assms])

lemma Sweep_success_iff:
  assumes "sweep_body j (db w) = (repo, returnErr, d')"
  shows "fst (SweepBlobMountsInNextRepo j w) = None \<longleftrightarrow> returnErr = None"
  by (cases returnErr) (simp_all add: Sweep_unfold [OF assms])

subsection \<open>Referenced blob mounts are kept\<close>

lemma has_mount_image:
  "has_mount d b r \<longleftrightarrow>
     (b, r) \<in> (\<lambda>m. (mount_BlobID m, mount_RepositoryID m)) ` set (blob_mounts d)"
  unfolding has_mount_def image_iff by (rule bex_cong [OF refl]) (simp add: eq_commute)

lemma has_mount_map:
  assumes "\<And>m. mount_BlobID (f m) = mount_BlobID m"
    and "\<And>m. mount_RepositoryID (f m) = mount_RepositoryID m"
  shows "has_mount (d\<lparr>blob_mounts := map f (blob_mounts d)\<rparr>) b r = has_mount d b r"
proof -
  have "(\<lambda>m. (mount_BlobID m, mount_RepositoryID m)) \<circ> f =
      (\<lambda>m. (mount_BlobID m, mount_RepositoryID m))"
    by (rule ext) (simp add: assms)
  then show ?thesis
    unfolding has_mount_image by (simp add: image_comp)
qed

lemma has_mount_mark [simp]: "has_mount (blobMountMarkQuery r t d) b r' = has_mount d b r'"
  unfolding blobMountMarkQuery_def by (rule has_mount_map) simp_all

lemma has_mount_unmark [simp]: "has_mount (blobMountUnmarkQuery r d) b r' = has_mount d b r'"
  unfolding blobMountUnmarkQuery_def by (rule has_mount_map) simp_all

lemma has_mount_done [simp]: "has_mount (blobMountSweepDoneQuery r t d) b r' = has_mount d b r'"
  by (simp add: has_mount_def)

lemma is_referenced_mark [simp]: "is_referenced (blobMountMarkQuery r t d) b r' = is_referenced d b r'"
  by (simp add: is_referenced_def)

lemma is_referenced_unmark [simp]: "is_referenced (blobMountUnmarkQuery r d) b r' = is_referenced d b r'"
  by (simp add: is_referenced_def)

lemma mount_is_referenced_conv:
  "mount_is_referenced d m = is_referenced d (mount_BlobID m) (mount_RepositoryID m)"
  by (simp add: mount_is_referenced_def is_referenced_def)

lemma has_mount_sweep:
  assumes "blobMountSweepMarkedQuery r now d = Inr (n, d')"
    and "has_mount d b r'" and "is_referenced d b r'"
  shows "has_mount d' b r'"
proof -
  from assms(2) obtain m where m: "m \<in> set (blob_mounts d)"
    and k: "mount_BlobID m = b" "mount_RepositoryID m = r'"
    unfolding has_mount_def by blast
  have "mount_is_referenced d m"
    using assms(3) k by (simp add: mount_is_referenced_conv)
  then have "\<not> sweep_where r now m"
    using sweep_Inr(4) [OF assms(1)] m by blast
  with m have "m \<in> set (blob_mounts d')"
    by (simp add: sweep_Inr(3) [OF assms(1)])
  with k show ?thesis
    unfolding has_mount_def by blast
qed

text \<open>The relation between the database before a run and after it.\<close>

lemma sweep_body_keeps:
  assumes "sweep_body j d = (repo, returnErr, d')"
  shows "manifest_blob_refs d' = manifest_blob_refs d
    \<and> (\<forall>b r. has_mount d b r \<and> is_referenced d b r \<longrightarrow> has_mount d' b r)"
proof (cases j d rule: sweep_body_cases)
  case (search_failed err)
  with assms have "d' = d" by auto
  then show ?thesis by simp
next
  case no_rows
  with assms have "d' = d" by auto
  then show ?thesis by simp
next
  case (mark_failed repo err)
  with assms have "d' = d" by auto
  then show ?thesis by simp
next
  case (unmark_failed repo err)
  with assms have "d' = blobMountMarkQuery (ID repo) (timeNow j 1 + 30 * Minute) d" by auto
  then show ?thesis by simp
next
  case (sweep_failed repo err)
  with assms have "d' = blobMountUnmarkQuery (ID repo)
      (blobMountMarkQuery (ID repo) (timeNow j 1 + 30 * Minute) d)" by auto
  then show ?thesis by simp
next
  case (rows_affected_failed repo err n d3)
  from rows_affected_failed assms have d': "d' = d3" by auto
  show ?thesis
    using sweep_Inr(1) [OF rows_affected_failed(6)] has_mount_sweep [OF rows_affected_failed(6)]
    by (simp add: d')
next
  case (done_failed repo err n d3)
  from done_failed assms have d': "d' = d3" by auto
  show ?thesis
    using sweep_Inr(1) [OF done_failed(6)] has_mount_sweep [OF done_failed(6)]
    by (simp add: d')
next
  case (success repo n d3)
  from success assms
  have d': "d' = blobMountSweepDoneQuery (ID repo) (timeNow j 3 + 1 * Hour) d3" by auto
  show ?thesis
    using sweep_Inr(1) [OF success(6)] has_mount_sweep [OF success(6)]
    by (simp add: d')
qed

subsection \<open>The example runs\<close>

lemma example_janitor_simps:
  "timeNow example_janitor k = 30000" "fails example_janitor s = None"
  by (simp_all add: example_janitor_def)

lemma example_repo_ID: "ID example_repo = 1" "ID example_failed_repo = 1"
  by (simp_all add: example_repo_def example_failed_repo_def)

lemma example_search: "blobMountSweepSearchQuery example_db 30000 = Some example_repo"
  by (simp add: example_db_def example_repo_def query_defs)

lemma example_mark:
  "blobMountMarkQuery 1 t example_db =
     example_db\<lparr>blob_mounts :=
       [\<lparr>mount_BlobID = 1, mount_RepositoryID = 1, CanBeDeletedAt = None\<rparr>,
        \<lparr>mount_BlobID = 2, mount_RepositoryID = 1, CanBeDeletedAt = Some 100\<rparr>,
        \<lparr>mount_BlobID = 4, mount_RepositoryID = 1, CanBeDeletedAt = Some t\<rparr>,
        \<lparr>mount_BlobID = 6, mount_RepositoryID = 1, CanBeDeletedAt = Some 100\<rparr>]\<rparr>"
  by (simp add: example_db_def query_defs)

lemma example_unmark:
  "blobMountUnmarkQuery 1
     (example_db\<lparr>blob_mounts :=
       [\<lparr>mount_BlobID = 1, mount_RepositoryID = 1, CanBeDeletedAt = None\<rparr>,
        \<lparr>mount_BlobID = 2, mount_RepositoryID = 1, CanBeDeletedAt = Some 100\<rparr>,
        \<lparr>mount_BlobID = 4, mount_RepositoryID = 1, CanBeDeletedAt = Some t\<rparr>,
        \<lparr>mount_BlobID = 6, mount_RepositoryID = 1, CanBeDeletedAt = Some 100\<rparr>]\<rparr>) =
     example_db\<lparr>blob_mounts :=
       [\<lparr>mount_BlobID = 1, mount_RepositoryID = 1, CanBeDeletedAt = None\<rparr>,
        \<lparr>mount_BlobID = 2, mount_RepositoryID = 1, CanBeDeletedAt = None\<rparr>,
        \<lparr>mount_BlobID = 4, mount_RepositoryID = 1, CanBeDeletedAt = Some t\<rparr>,
        \<lparr>mount_BlobID = 6, mount_RepositoryID = 1, CanBeDeletedAt = Some 100\<rparr>]\<rparr>"
  by (simp add: example_db_def query_defs)

lemma example_sweep:
  "blobMountSweepMarkedQuery 1 now
     (example_db\<lparr>blob_mounts :=
       [\<lparr>mount_BlobID = 1, mount_RepositoryID = 1, CanBeDeletedAt = None\<rparr>,
        \<lparr>mount_BlobID = 2, mount_RepositoryID = 1, CanBeDeletedAt = None\<rparr>,
        \<lparr>mount_BlobID = 4, mount_RepositoryID = 1, CanBeDeletedAt = Some t\<rparr>,
        \<lparr>mount_BlobID = 6, mount_RepositoryID = 1, CanBeDeletedAt = Some 100\<rparr>]\<rparr>) =
     (if 100 < now then
        if t < now then
          Inr (2, example_db\<lparr>blob_mounts :=
            [\<lparr>mount_BlobID = 1, mount_RepositoryID = 1, CanBeDeletedAt = None\<rparr>,
             \<lparr>mount_BlobID = 2, mount_RepositoryID = 1, CanBeDeletedAt = None\<rparr>]\<rparr>)
        else
          Inr (1, example_db\<lparr>blob_mounts :=
            [\<lparr>mount_BlobID = 1, mount_RepositoryID = 1, CanBeDeletedAt = None\<rparr>,
             \<lparr>mount_BlobID = 2, mount_RepositoryID = 1, CanBeDeletedAt = None\<rparr>,
             \<lparr>mount_BlobID = 4, mount_RepositoryID = 1, CanBeDeletedAt = Some t\<rparr>]\<rparr>)
      else blobMountSweepMarkedQuery 1 now
        (example_db\<lparr>blob_mounts :=
          [\<lparr>mount_BlobID = 1, mount_RepositoryID = 1, CanBeDeletedAt = None\<rparr>,
           \<lparr>mount_BlobID = 2, mount_RepositoryID = 1, CanBeDeletedAt = None\<rparr>,
           \<lparr>mount_BlobID = 4, mount_RepositoryID = 1, CanBeDeletedAt = Some t\<rparr>,
           \<lparr>mount_BlobID = 6, mount_RepositoryID = 1, CanBeDeletedAt = Some 100\<rparr>]\<rparr>))"
  by (simp add: example_db_def query_defs Let_def)

lemma example_body:
  "sweep_body example_janitor example_db =
     (example_repo, None,
      blobMountSweepDoneQuery 1 3600000030000
        (example_db\<lparr>blob_mounts :=
          [\<lparr>mount_BlobID = 1, mount_RepositoryID = 1, CanBeDeletedAt = None\<rparr>,
           \<lparr>mount_BlobID = 2, mount_RepositoryID = 1, CanBeDeletedAt = None\<rparr>,
           \<lparr>mount_BlobID = 4, mount_RepositoryID = 1, CanBeDeletedAt = Some 1800000030000\<rparr>]\<rparr>))"
  by (simp add: sweep_body_def SelectOne_search_def example_janitor_simps example_repo_ID
      example_search example_mark example_unmark example_sweep Minute_def Second_def Hour_def)

subsection \<open>The claims about the sweep\<close>

lemma mark_then_unmark:
  "blob_mounts (blobMountUnmarkQuery r (blobMountMarkQuery r t d)) =
     map (\<lambda>m. if mount_RepositoryID m = r \<and> mount_is_referenced d m
                 then m\<lparr>CanBeDeletedAt := None\<rparr>
               else if mount_RepositoryID m = r \<and> CanBeDeletedAt m = None
                 then m\<lparr>CanBeDeletedAt := Some t\<rparr>
               else m)
       (blob_mounts d)"
proof -
  let ?mark = "\<lambda>m. if mount_RepositoryID m = r \<and> CanBeDeletedAt m = None
                      \<and> mount_BlobID m \<notin> set (referenced_blob_ids d r)
                   then m\<lparr>CanBeDeletedAt := Some t\<rparr> else m"
  let ?unmark = "\<lambda>m. if mount_RepositoryID m = r
                      \<and> mount_BlobID m \<in> set (referenced_blob_ids d r)
                   then m\<lparr>CanBeDeletedAt := None\<rparr> else m"
  let ?both = "\<lambda>m. if mount_RepositoryID m = r \<and> mount_is_referenced d m
                 then m\<lparr>CanBeDeletedAt := None\<rparr>
               else if mount_RepositoryID m = r \<and> CanBeDeletedAt m = None
                 then m\<lparr>CanBeDeletedAt := Some t\<rparr>
               else m"
  have pt: "?unmark (?mark m) = ?both m" for m
    by (cases "mount_RepositoryID m = r";
        cases "mount_BlobID m \<in> set (referenced_blob_ids d r)";
        cases "CanBeDeletedAt m = None")
       (simp_all add: mount_is_referenced_iff)
  have "blob_mounts (blobMountUnmarkQuery r (blobMountMarkQuery r t d)) =
      map ?unmark (map ?mark (blob_mounts d))"
    by (simp add: blobMountUnmarkQuery_def) (simp add: blobMountMarkQuery_def)
  also have "\<dots> = map (\<lambda>m. ?unmark (?mark m)) (blob_mounts d)"
    by (simp only: map_map comp_def)
  also have "\<dots> = map ?both (blob_mounts d)"
    by (simp only: pt)
  finally show ?thesis .
qed

text \<open>
  A run in which the search, the mark and the unmark statement are not refused: the local
  variable \<^verbatim>\<open>repo\<close> is the row of the search, and the blob mounts at the end are those
  after the unmark statement, less the rows that the sweep statement deleted if it ran.
\<close>

lemma sweep_body_past_unmark:
  assumes s: "fails j SearchStmt = None"
    and q: "blobMountSweepSearchQuery d (timeNow j 0) = Some repo"
    and m: "fails j MarkStmt = None" and u: "fails j UnmarkStmt = None"
    and body: "sweep_body j d = (repo0, returnErr, d')"
  shows "repo0 = repo"
    and "blob_mounts d' =
          blob_mounts (blobMountUnmarkQuery (ID repo)
            (blobMountMarkQuery (ID repo) (timeNow j 1 + 30 * Minute) d))
       \<or> blob_mounts d' =
          filter (\<lambda>m. \<not> sweep_where (ID repo) (timeNow j 2) m)
            (blob_mounts (blobMountUnmarkQuery (ID repo)
              (blobMountMarkQuery (ID repo) (timeNow j 1 + 30 * Minute) d)))"
    and "fails j SweepStmt = None \<Longrightarrow>
         blob_mounts d' =
          filter (\<lambda>m. \<not> sweep_where (ID repo) (timeNow j 2) m)
            (blob_mounts (blobMountUnmarkQuery (ID repo)
              (blobMountMarkQuery (ID repo) (timeNow j 1 + 30 * Minute) d)))"
    and "fails j SweepStmt = None \<Longrightarrow> fails j RowsAffectedCall = None \<Longrightarrow>
         fails j DoneStmt = None \<Longrightarrow>
         returnErr = None \<and>
         repos d' =
           map (\<lambda>r. if ID r = ID repo
                     then r\<lparr>NextBlobMountSweepAt := Some (timeNow j 3 + Hour)\<rparr> else r)
             (repos d)"
proof -
  let ?d2 = "blobMountUnmarkQuery (ID repo)
      (blobMountMarkQuery (ID repo) (timeNow j 1 + 30 * Minute) d)"
  let ?swept = "filter (\<lambda>m. \<not> sweep_where (ID repo) (timeNow j 2) m) (blob_mounts ?d2)"
  have "repo0 = repo
    \<and> (blob_mounts d' = blob_mounts ?d2 \<or> blob_mounts d' = ?swept)
    \<and> (fails j SweepStmt = None \<longrightarrow> blob_mounts d' = ?swept)
    \<and> (fails j SweepStmt = None \<and> fails j RowsAffectedCall = None \<and> fails j DoneStmt = None
        \<longrightarrow> returnErr = None \<and>
         repos d' =
           map (\<lambda>r. if ID r = ID repo
                     then r\<lparr>NextBlobMountSweepAt := Some (timeNow j 3 + Hour)\<rparr> else r)
             (repos d))"
  proof (cases j d rule: sweep_body_cases)
    case (search_failed err)
    with s show ?thesis by simp
  next
    case no_rows
    with q show ?thesis by simp
  next
    case (mark_failed repo' err)
    with m show ?thesis by simp
  next
    case (unmark_failed repo' err)
    with u show ?thesis by simp
  next
    case (sweep_failed repo' err)
    with q have r: "repo' = repo" by simp
    from sweep_failed body have "repo0 = repo'" and "d' = blobMountUnmarkQuery (ID repo')
        (blobMountMarkQuery (ID repo') (timeNow j 1 + 30 * Minute) d)"
      by auto
    with r sweep_failed(5) show ?thesis by simp
  next
    case (rows_affected_failed repo' err n d3)
    with q have r: "repo' = repo" by simp
    from rows_affected_failed body have e: "repo0 = repo'" "d' = d3" by auto
    have "blob_mounts d3 = ?swept"
      using sweep_Inr(3) [OF rows_affected_failed(6)] by (simp add: r)
    with e r rows_affected_failed(7) show ?thesis by simp
  next
    case (done_failed repo' err n d3)
    with q have r: "repo' = repo" by simp
    from done_failed body have e: "repo0 = repo'" "d' = d3" by auto
    have "blob_mounts d3 = ?swept"
      using sweep_Inr(3) [OF done_failed(6)] by (simp add: r)
    with e r done_failed(8) show ?thesis by simp
  next
    case (success repo' n d3)
    with q have r: "repo' = repo" by simp
    from success body have e: "repo0 = repo'" "returnErr = None"
      "d' = blobMountSweepDoneQuery (ID repo') (timeNow j 3 + 1 * Hour) d3" by auto
    have "blob_mounts d3 = ?swept"
      using sweep_Inr(3) [OF success(6)] by (simp add: r)
    moreover have "repos d3 = repos d"
      using sweep_Inr(2) [OF success(6)] by simp
    ultimately show ?thesis
      using e r by (simp add: blobMountSweepDoneQuery_def)
  qed
  then show "repo0 = repo"
    and "blob_mounts d' = blob_mounts ?d2 \<or> blob_mounts d' = ?swept"
    and "fails j SweepStmt = None \<Longrightarrow> blob_mounts d' = ?swept"
    and "fails j SweepStmt = None \<Longrightarrow> fails j RowsAffectedCall = None \<Longrightarrow>
         fails j DoneStmt = None \<Longrightarrow>
         returnErr = None \<and>
         repos d' =
           map (\<lambda>r. if ID r = ID repo
                     then r\<lparr>NextBlobMountSweepAt := Some (timeNow j 3 + Hour)\<rparr> else r)
             (repos d)"
    by blast+
qed

text \<open>
  What one row of \<^verbatim>\<open>blob_mounts\<close> looks like after the mark and the unmark statement.
\<close>

lemma mark_then_unmark_row:
  assumes "m \<in> set (blob_mounts d)"
  shows "(if mount_RepositoryID m = r \<and> mount_is_referenced d m
            then m\<lparr>CanBeDeletedAt := None\<rparr>
          else if mount_RepositoryID m = r \<and> CanBeDeletedAt m = None
            then m\<lparr>CanBeDeletedAt := Some t\<rparr>
          else m)
        \<in> set (blob_mounts (blobMountUnmarkQuery r (blobMountMarkQuery r t d)))"
  unfolding mark_then_unmark using assms by (simp only: set_map) (rule imageI)

lemma unmarked_row_not_swept:
  "\<not> sweep_where r now (m\<lparr>CanBeDeletedAt := None\<rparr>)"
  by (simp add: sweep_where_def sql_less_def)

text \<open>
  After the unmark statement, the referenced blob mounts of the repository are unmarked, and
  they stay so when the sweep statement has run.
\<close>

lemma reset_after_unmark:
  assumes "blob_mounts d' = blob_mounts (blobMountUnmarkQuery r (blobMountMarkQuery r t d))
       \<or> blob_mounts d' = filter (\<lambda>m. \<not> sweep_where r now m)
            (blob_mounts (blobMountUnmarkQuery r (blobMountMarkQuery r t d)))"
  shows "\<forall>m \<in> set (blob_mounts d). mount_RepositoryID m = r \<and> mount_is_referenced d m \<longrightarrow>
           m\<lparr>CanBeDeletedAt := None\<rparr> \<in> set (blob_mounts d')"
    and "\<forall>m' \<in> set (blob_mounts d'). mount_RepositoryID m' = r \<and> mount_is_referenced d m' \<longrightarrow>
           CanBeDeletedAt m' = None"
proof -
  let ?d2 = "blobMountUnmarkQuery r (blobMountMarkQuery r t d)"
  show "\<forall>m \<in> set (blob_mounts d). mount_RepositoryID m = r \<and> mount_is_referenced d m \<longrightarrow>
           m\<lparr>CanBeDeletedAt := None\<rparr> \<in> set (blob_mounts d')"
  proof (intro ballI impI)
    fix m assume m: "m \<in> set (blob_mounts d)"
      and c: "mount_RepositoryID m = r \<and> mount_is_referenced d m"
    have "m\<lparr>CanBeDeletedAt := None\<rparr> \<in> set (blob_mounts ?d2)"
      using mark_then_unmark_row [OF m, of r t] c by simp
    then show "m\<lparr>CanBeDeletedAt := None\<rparr> \<in> set (blob_mounts d')"
      using assms by (auto simp add: unmarked_row_not_swept)
  qed
  show "\<forall>m' \<in> set (blob_mounts d'). mount_RepositoryID m' = r \<and> mount_is_referenced d m' \<longrightarrow>
           CanBeDeletedAt m' = None"
  proof (intro ballI impI)
    fix m' assume m': "m' \<in> set (blob_mounts d')"
      and c: "mount_RepositoryID m' = r \<and> mount_is_referenced d m'"
    from m' assms have in2: "m' \<in> set (blob_mounts ?d2)"
      by auto
    from c have r: "mount_RepositoryID m' = r" and ref: "mount_is_referenced d m'"
      by blast+
    from ref have "mount_BlobID m' \<in> set (referenced_blob_ids d (mount_RepositoryID m'))"
      by (simp only: mount_is_referenced_iff)
    then have "mount_BlobID m' \<in> set (referenced_blob_ids (blobMountMarkQuery r t d) r)"
      by (simp add: r)
    then show "CanBeDeletedAt m' = None"
      by (rule unmark_clears [OF in2 r])
  qed
qed

text \<open>
  A row that is gone after the sweep statement, run after the mark and the unmark statement,
  is an unreferenced row of the repository whose mark is in the past; the mark is the one it
  had, or the one that the mark statement has just given it.
\<close>

lemma deleted_row:
  assumes m: "m \<in> set (blob_mounts d)"
    and gone: "\<not> has_mount d' (mount_BlobID m) (mount_RepositoryID m)"
    and d': "blob_mounts d' = filter (\<lambda>m. \<not> sweep_where r now m)
            (blob_mounts (blobMountUnmarkQuery r (blobMountMarkQuery r t d)))"
  shows "mount_RepositoryID m = r \<and> \<not> mount_is_referenced d m
    \<and> (case CanBeDeletedAt m of Some t' \<Rightarrow> t' < now | None \<Rightarrow> t < now)"
proof -
  let ?f = "\<lambda>m. if mount_RepositoryID m = r \<and> mount_is_referenced d m
                 then m\<lparr>CanBeDeletedAt := None\<rparr>
               else if mount_RepositoryID m = r \<and> CanBeDeletedAt m = None
                 then m\<lparr>CanBeDeletedAt := Some t\<rparr>
               else m"
  have key: "mount_BlobID (?f m) = mount_BlobID m" "mount_RepositoryID (?f m) = mount_RepositoryID m"
    by simp_all
  have in2: "?f m \<in> set (blob_mounts (blobMountUnmarkQuery r (blobMountMarkQuery r t d)))"
    by (rule mark_then_unmark_row [OF m])
  have sw: "sweep_where r now (?f m)"
  proof (rule ccontr)
    assume "\<not> sweep_where r now (?f m)"
    with in2 have "?f m \<in> set (blob_mounts d')"
      by (simp only: d' set_filter mem_Collect_eq simp_thms)
    then have "has_mount d' (mount_BlobID (?f m)) (mount_RepositoryID (?f m))"
      unfolding has_mount_def by blast
    with gone show False
      by (simp only: key)
  qed
  then have r: "mount_RepositoryID m = r"
    by (simp add: sweep_where_def split: if_splits)
  have nref: "\<not> mount_is_referenced d m"
  proof
    assume "mount_is_referenced d m"
    with r have "?f m = m\<lparr>CanBeDeletedAt := None\<rparr>" by simp
    with sw show False
      by (simp only: unmarked_row_not_swept)
  qed
  have "case CanBeDeletedAt m of Some t' \<Rightarrow> t' < now | None \<Rightarrow> t < now"
  proof (cases "CanBeDeletedAt m")
    case None
    with r nref have "?f m = m\<lparr>CanBeDeletedAt := Some t\<rparr>" by simp
    with sw None show ?thesis
      by (simp add: sweep_where_def sql_less_def)
  next
    case (Some t')
    with r nref have "?f m = m" by simp
    with sw Some show ?thesis
      by (simp add: sweep_where_def sql_less_def)
  qed
  with r nref show ?thesis by blast
qed

lemma has_mount_member:
  "m \<in> set (blob_mounts d) \<Longrightarrow> has_mount d (mount_BlobID m) (mount_RepositoryID m)"
  unfolding has_mount_def by blast

lemma has_mount_cong:
  "blob_mounts d' = blob_mounts d \<Longrightarrow> has_mount d' b r = has_mount d b r"
  by (simp add: has_mount_def)

text \<open>The blob mounts that a run deletes.\<close>

lemma sweep_body_deletes:
  assumes body: "sweep_body j d = (repo0, returnErr, d')"
    and m: "m \<in> set (blob_mounts d)"
    and gone: "\<not> has_mount d' (mount_BlobID m) (mount_RepositoryID m)"
  shows "\<exists>repo :: Repository. fails j SearchStmt = None
    \<and> blobMountSweepSearchQuery d (timeNow j 0) = Some repo
    \<and> mount_RepositoryID m = ID repo \<and> \<not> mount_is_referenced d m
    \<and> (case CanBeDeletedAt m of
         Some t \<Rightarrow> t < timeNow j 2
       | None \<Rightarrow> timeNow j 1 + 30 * Minute < timeNow j 2)"
proof -
  note here = has_mount_member [OF m]
  have swept: ?thesis
    if s: "fails j SearchStmt = None"
      and q: "blobMountSweepSearchQuery d (timeNow j 0) = Some repo"
      and d3: "blobMountSweepMarkedQuery (ID repo) (timeNow j 2)
          (blobMountUnmarkQuery (ID repo)
            (blobMountMarkQuery (ID repo) (timeNow j 1 + 30 * Minute) d)) = Inr (n, d3)"
      and e: "blob_mounts d' = blob_mounts d3"
    for repo :: Repository and n d3
  proof -
    have "blob_mounts d' = filter (\<lambda>m. \<not> sweep_where (ID repo) (timeNow j 2) m)
        (blob_mounts (blobMountUnmarkQuery (ID repo)
          (blobMountMarkQuery (ID repo) (timeNow j 1 + 30 * Minute) d)))"
      using sweep_Inr(3) [OF d3] e by simp
    from deleted_row [OF m gone this] s q show ?thesis
      by (intro exI [of _ repo]) simp
  qed
  show ?thesis
  proof (cases j d rule: sweep_body_cases)
    case (search_failed err)
    with body have "d' = d" by auto
    with gone here show ?thesis by simp
  next
    case no_rows
    with body have "d' = d" by auto
    with gone here show ?thesis by simp
  next
    case (mark_failed repo err)
    with body have "d' = d" by auto
    with gone here show ?thesis by simp
  next
    case (unmark_failed repo err)
    with body have "d' = blobMountMarkQuery (ID repo) (timeNow j 1 + 30 * Minute) d" by auto
    with gone here show ?thesis by simp
  next
    case (sweep_failed repo err)
    with body have "d' = blobMountUnmarkQuery (ID repo)
        (blobMountMarkQuery (ID repo) (timeNow j 1 + 30 * Minute) d)" by auto
    with gone here show ?thesis by simp
  next
    case (rows_affected_failed repo err n d3)
    from rows_affected_failed body have "d' = d3" by auto
    then show ?thesis
      using swept [OF rows_affected_failed(1,2,6)] by simp
  next
    case (done_failed repo err n d3)
    from done_failed body have "d' = d3" by auto
    then show ?thesis
      using swept [OF done_failed(1,2,6)] by simp
  next
    case (success repo n d3)
    from success body
    have "d' = blobMountSweepDoneQuery (ID repo) (timeNow j 3 + 1 * Hour) d3" by auto
    then show ?thesis
      using swept [OF success(1,2,6)] by simp
  qed
qed

text \<open>
  C2. No blob mount that a row of \<^verbatim>\<open>manifest_blob_refs\<close> references is deleted by
  \<^verbatim>\<open>SweepBlobMountsInNextRepo\<close>, however the run ends; the run does not touch
  \<^verbatim>\<open>manifest_blob_refs\<close>, so the references at sweep time are those at the start; mount
  before reference is preserved.

  The unmark step runs before the sweep step. In a run on the repository \<^verbatim>\<open>repo\<close> that the
  search statement returns, in which the mark and the unmark statement are not refused,
  every referenced blob mount of \<^verbatim>\<open>repo\<close> is in the table afterwards with
  \<^verbatim>\<open>can_be_deleted_at\<close> reset to \<^verbatim>\<open>NULL\<close>, whatever it was before, and no referenced blob
  mount of \<^verbatim>\<open>repo\<close> has a mark afterwards. When no statement is refused for a reason of its
  own, the run succeeds, so the foreign key does not refuse its \<^verbatim>\<open>DELETE\<close>, and the blob
  mounts afterwards are the rows from before, first reset when they are referenced rows of
  \<^verbatim>\<open>repo\<close> and marked when they are unmarked unreferenced rows of \<^verbatim>\<open>repo\<close>, then filtered
  by the condition of the sweep statement. Whatever the outcome, a blob mount that is gone
  after the run is an unreferenced blob mount of the repository that the search statement
  returned, and its mark (the one it had, or the one of this run) is earlier than the clock
  reading of the sweep step.

  Of the statements alone: the unmark statement resets \<^verbatim>\<open>can_be_deleted_at\<close> on every
  referenced blob mount of the repository; the sweep statement deletes only blob mounts of
  the repository with a \<^verbatim>\<open>can_be_deleted_at\<close> that is not \<^verbatim>\<open>NULL\<close> and earlier than now,
  and in no state a referenced one (the foreign key); run right after the unmark statement,
  it is not refused by the foreign key and keeps every referenced blob mount.
\<close>

theorem sweep_keeps_referenced_mounts:
  fixes j :: Janitor and w :: World and repo :: Repository
  shows
  "(\<forall>b r. has_mount (db w) b r \<and> is_referenced (db w) b r \<longrightarrow>
       has_mount (db (snd (SweepBlobMountsInNextRepo j w))) b r)
   \<and> manifest_blob_refs (db (snd (SweepBlobMountsInNextRepo j w))) = manifest_blob_refs (db w)
   \<and> (mount_before_reference (db w) \<longrightarrow>
        mount_before_reference (db (snd (SweepBlobMountsInNextRepo j w))))
   \<and> (fails j SearchStmt = None
        \<and> blobMountSweepSearchQuery (db w) (timeNow j 0) = Some repo
        \<and> fails j MarkStmt = None \<and> fails j UnmarkStmt = None \<longrightarrow>
        (\<forall>m \<in> set (blob_mounts (db w)).
           mount_RepositoryID m = ID repo \<and> mount_is_referenced (db w) m \<longrightarrow>
             m\<lparr>CanBeDeletedAt := None\<rparr>
               \<in> set (blob_mounts (db (snd (SweepBlobMountsInNextRepo j w)))))
        \<and> (\<forall>m' \<in> set (blob_mounts (db (snd (SweepBlobMountsInNextRepo j w)))).
             mount_RepositoryID m' = ID repo \<and> mount_is_referenced (db w) m' \<longrightarrow>
               CanBeDeletedAt m' = None))
   \<and> ((\<forall>s. fails j s = None)
        \<and> blobMountSweepSearchQuery (db w) (timeNow j 0) = Some repo \<longrightarrow>
        fst (SweepBlobMountsInNextRepo j w) = None
        \<and> blob_mounts (db (snd (SweepBlobMountsInNextRepo j w))) =
            filter (\<lambda>m. \<not> sweep_where (ID repo) (timeNow j 2) m)
              (map (\<lambda>m. if mount_RepositoryID m = ID repo \<and> mount_is_referenced (db w) m
                           then m\<lparr>CanBeDeletedAt := None\<rparr>
                         else if mount_RepositoryID m = ID repo \<and> CanBeDeletedAt m = None
                           then m\<lparr>CanBeDeletedAt := Some (timeNow j 1 + 30 * Minute)\<rparr>
                         else m)
                 (blob_mounts (db w))))
   \<and> (\<forall>m \<in> set (blob_mounts (db w)).
        \<not> has_mount (db (snd (SweepBlobMountsInNextRepo j w)))
             (mount_BlobID m) (mount_RepositoryID m) \<longrightarrow>
        (\<exists>chosen :: Repository. fails j SearchStmt = None
           \<and> blobMountSweepSearchQuery (db w) (timeNow j 0) = Some chosen
           \<and> mount_RepositoryID m = ID chosen \<and> \<not> mount_is_referenced (db w) m
           \<and> (case CanBeDeletedAt m of
                Some t \<Rightarrow> t < timeNow j 2
              | None \<Rightarrow> timeNow j 1 + 30 * Minute < timeNow j 2)))
   \<and> (\<forall>m \<in> set (blob_mounts (blobMountUnmarkQuery repo_id d)).
        mount_RepositoryID m = repo_id \<and> mount_is_referenced d m \<longrightarrow> CanBeDeletedAt m = None)
   \<and> (\<forall>n d'. blobMountSweepMarkedQuery repo_id now d = Inr (n, d') \<longrightarrow>
        (\<forall>m \<in> set (blob_mounts d). m \<notin> set (blob_mounts d') \<longrightarrow>
           mount_RepositoryID m = repo_id
           \<and> (\<exists>t. CanBeDeletedAt m = Some t \<and> t < now)
           \<and> \<not> mount_is_referenced d m))
   \<and> (\<exists>n d'. blobMountSweepMarkedQuery repo_id now (blobMountUnmarkQuery repo_id d) = Inr (n, d')
        \<and> (\<forall>m \<in> set (blob_mounts (blobMountUnmarkQuery repo_id d)).
              mount_is_referenced d m \<longrightarrow> m \<in> set (blob_mounts d')))"
    (is "?kept \<and> ?refs \<and> ?inv \<and> ?reset \<and> ?whole \<and> ?gone \<and> ?unmark \<and> ?sweep \<and> ?after")
proof -
  let ?R = "SweepBlobMountsInNextRepo j w"
  obtain repo0 returnErr d' where body: "sweep_body j (db w) = (repo0, returnErr, d')"
    by (cases "sweep_body j (db w)")
  have db': "db (snd ?R) = d'"
    by (rule Sweep_db [OF body])
  note keeps = sweep_body_keeps [OF body]
  have kept: ?kept
    using keeps by (simp add: db')
  have refs: ?refs
    using keeps by (simp add: db')
  have inv: ?inv
  proof
    assume i: "mount_before_reference (db w)"
    show "mount_before_reference (db (snd ?R))"
      unfolding mount_before_reference_def db'
    proof
      fix ref assume "ref \<in> set (manifest_blob_refs d')"
      then have ref: "ref \<in> set (manifest_blob_refs (db w))"
        using keeps by simp
      then have "has_mount (db w) (ref_BlobID ref) (ref_RepositoryID ref)"
        using i by (simp add: mount_before_reference_def)
      moreover have "is_referenced (db w) (ref_BlobID ref) (ref_RepositoryID ref)"
        using ref unfolding is_referenced_def by blast
      ultimately show "has_mount d' (ref_BlobID ref) (ref_RepositoryID ref)"
        using keeps by blast
    qed
  qed
  have reset: ?reset
  proof (intro impI, elim conjE)
    assume s: "fails j SearchStmt = None"
      and q: "blobMountSweepSearchQuery (db w) (timeNow j 0) = Some repo"
      and m: "fails j MarkStmt = None" and u: "fails j UnmarkStmt = None"
    note past = sweep_body_past_unmark(2) [OF s q m u body]
    show "(\<forall>m \<in> set (blob_mounts (db w)).
           mount_RepositoryID m = ID repo \<and> mount_is_referenced (db w) m \<longrightarrow>
             m\<lparr>CanBeDeletedAt := None\<rparr> \<in> set (blob_mounts (db (snd ?R))))
        \<and> (\<forall>m' \<in> set (blob_mounts (db (snd ?R))).
             mount_RepositoryID m' = ID repo \<and> mount_is_referenced (db w) m' \<longrightarrow>
               CanBeDeletedAt m' = None)"
      unfolding db' using reset_after_unmark [OF past] by (rule conjI)
  qed
  have whole: ?whole
  proof (intro impI, elim conjE)
    assume all: "\<forall>s. fails j s = None"
      and q: "blobMountSweepSearchQuery (db w) (timeNow j 0) = Some repo"
    have f: "fails j s = None" for s
      using all by simp
    have "returnErr = None"
      using sweep_body_past_unmark(4) [OF f q f f body f f f] by simp
    then have "fst ?R = None"
      by (simp add: Sweep_success_iff [OF body])
    moreover have "blob_mounts (db (snd ?R)) =
        filter (\<lambda>m. \<not> sweep_where (ID repo) (timeNow j 2) m)
          (blob_mounts (blobMountUnmarkQuery (ID repo)
            (blobMountMarkQuery (ID repo) (timeNow j 1 + 30 * Minute) (db w))))"
      unfolding db' by (rule sweep_body_past_unmark(3) [OF f q f f body f])
    ultimately show "fst ?R = None
        \<and> blob_mounts (db (snd ?R)) =
            filter (\<lambda>m. \<not> sweep_where (ID repo) (timeNow j 2) m)
              (map (\<lambda>m. if mount_RepositoryID m = ID repo \<and> mount_is_referenced (db w) m
                           then m\<lparr>CanBeDeletedAt := None\<rparr>
                         else if mount_RepositoryID m = ID repo \<and> CanBeDeletedAt m = None
                           then m\<lparr>CanBeDeletedAt := Some (timeNow j 1 + 30 * Minute)\<rparr>
                         else m)
                 (blob_mounts (db w)))"
      by (simp only: mark_then_unmark simp_thms)
  qed
  have gone: ?gone
    unfolding db' using sweep_body_deletes [OF body] by blast
  have unmark: ?unmark
    using unmark_clears [of _ repo_id d] by (auto simp add: mount_is_referenced_iff)
  have sweep: ?sweep
  proof (intro allI impI ballI)
    fix n d' m
    assume q: "blobMountSweepMarkedQuery repo_id now d = Inr (n, d')"
      and m: "m \<in> set (blob_mounts d)" and gone: "m \<notin> set (blob_mounts d')"
    from m gone have sw: "sweep_where repo_id now m"
      by (simp add: sweep_Inr(3) [OF q])
    then have "mount_RepositoryID m = repo_id" and "\<exists>t. CanBeDeletedAt m = Some t \<and> t < now"
      by (auto simp add: sweep_where_def sql_less_def split: option.splits)
    moreover have "\<not> mount_is_referenced d m"
      using sweep_Inr(4) [OF q] m sw by blast
    ultimately show "mount_RepositoryID m = repo_id
           \<and> (\<exists>t. CanBeDeletedAt m = Some t \<and> t < now)
           \<and> \<not> mount_is_referenced d m" by blast
  qed
  have after: ?after
  proof -
    let ?d = "blobMountUnmarkQuery repo_id d"
    obtain n d' where q: "blobMountSweepMarkedQuery repo_id now ?d = Inr (n, d')"
      using sweep_after_unmark_succeeds by blast
    have "m \<in> set (blob_mounts d')"
      if m: "m \<in> set (blob_mounts ?d)" and r: "mount_is_referenced d m" for m
    proof -
      have "mount_is_referenced ?d m"
        using r by (simp add: mount_is_referenced_iff)
      then have "\<not> sweep_where repo_id now m"
        using sweep_after_unmark_spares_referenced [OF m] by blast
      with m show ?thesis
        by (simp add: sweep_Inr(3) [OF q])
    qed
    with q show ?thesis
      by blast
  qed
  from kept refs inv reset whole gone unmark sweep after show ?thesis
    by (intro conjI)
qed

theorem sweep_keeps_referenced_mounts_witness:
  "blobMountSweepSearchQuery (db example_world) (timeNow example_janitor 0) = Some example_repo
   \<and> (\<forall>s. fails example_janitor s = None)
   \<and> \<lparr>mount_BlobID = 2, mount_RepositoryID = 1, CanBeDeletedAt = Some 100\<rparr>
        \<in> set (blob_mounts (db example_world))
   \<and> mount_is_referenced (db example_world)
        \<lparr>mount_BlobID = 2, mount_RepositoryID = 1, CanBeDeletedAt = Some 100\<rparr>
   \<and> \<lparr>mount_BlobID = 2, mount_RepositoryID = 1, CanBeDeletedAt = None\<rparr>
        \<in> set (blob_mounts (db (snd (SweepBlobMountsInNextRepo example_janitor example_world))))
   \<and> fst (SweepBlobMountsInNextRepo example_janitor example_world) = None
   \<and> blob_mounts (db (snd (SweepBlobMountsInNextRepo example_janitor example_world))) =
        [\<lparr>mount_BlobID = 1, mount_RepositoryID = 1, CanBeDeletedAt = None\<rparr>,
         \<lparr>mount_BlobID = 2, mount_RepositoryID = 1, CanBeDeletedAt = None\<rparr>,
         \<lparr>mount_BlobID = 4, mount_RepositoryID = 1, CanBeDeletedAt = Some 1800000030000\<rparr>]
   \<and> mount_before_reference (db example_world)
   \<and> mount_before_reference (db (snd (SweepBlobMountsInNextRepo example_janitor example_world)))"
proof -
  let ?R = "SweepBlobMountsInNextRepo example_janitor example_world"
  let ?m = "\<lparr>mount_BlobID = 2, mount_RepositoryID = 1, CanBeDeletedAt = Some 100\<rparr>"
  have dbw: "db example_world = example_db"
    by (simp add: example_world_def)
  have q: "blobMountSweepSearchQuery (db example_world) (timeNow example_janitor 0) =
      Some example_repo"
    by (simp add: dbw example_janitor_simps example_search)
  have f: "\<forall>s. fails example_janitor s = None"
    by (simp add: example_janitor_simps)
  have m: "?m \<in> set (blob_mounts (db example_world))"
    and r: "mount_is_referenced (db example_world) ?m"
    and i: "mount_before_reference (db example_world)"
    by (simp_all add: dbw example_db_def mount_is_referenced_def has_mount_def
        mount_before_reference_def)
  note c2 = sweep_keeps_referenced_mounts [of example_world example_janitor example_repo]
  have inv: "mount_before_reference (db example_world) \<longrightarrow>
      mount_before_reference (db (snd ?R))"
    by (rule c2 [THEN conjunct2, THEN conjunct2, THEN conjunct1])
  have "fails example_janitor SearchStmt = None
        \<and> blobMountSweepSearchQuery (db example_world) (timeNow example_janitor 0)
            = Some example_repo
        \<and> fails example_janitor MarkStmt = None \<and> fails example_janitor UnmarkStmt = None \<longrightarrow>
        (\<forall>m \<in> set (blob_mounts (db example_world)).
           mount_RepositoryID m = ID example_repo \<and> mount_is_referenced (db example_world) m \<longrightarrow>
             m\<lparr>CanBeDeletedAt := None\<rparr> \<in> set (blob_mounts (db (snd ?R))))
        \<and> (\<forall>m' \<in> set (blob_mounts (db (snd ?R))).
             mount_RepositoryID m' = ID example_repo \<and> mount_is_referenced (db example_world) m' \<longrightarrow>
               CanBeDeletedAt m' = None)"
    by (rule c2 [THEN conjunct2, THEN conjunct2, THEN conjunct2, THEN conjunct1])
  with q f have "\<forall>m \<in> set (blob_mounts (db example_world)).
           mount_RepositoryID m = ID example_repo \<and> mount_is_referenced (db example_world) m \<longrightarrow>
             m\<lparr>CanBeDeletedAt := None\<rparr> \<in> set (blob_mounts (db (snd ?R)))"
    by blast
  from bspec [OF this m] r
  have reset: "\<lparr>mount_BlobID = 2, mount_RepositoryID = 1, CanBeDeletedAt = None\<rparr>
      \<in> set (blob_mounts (db (snd ?R)))"
    by (simp add: example_repo_ID)
  have "(\<forall>s. fails example_janitor s = None)
        \<and> blobMountSweepSearchQuery (db example_world) (timeNow example_janitor 0)
            = Some example_repo \<longrightarrow>
        fst ?R = None
        \<and> blob_mounts (db (snd ?R)) =
            filter (\<lambda>m. \<not> sweep_where (ID example_repo) (timeNow example_janitor 2) m)
              (map (\<lambda>m. if mount_RepositoryID m = ID example_repo
                             \<and> mount_is_referenced (db example_world) m
                           then m\<lparr>CanBeDeletedAt := None\<rparr>
                         else if mount_RepositoryID m = ID example_repo \<and> CanBeDeletedAt m = None
                           then m\<lparr>CanBeDeletedAt :=
                             Some (timeNow example_janitor 1 + 30 * Minute)\<rparr>
                         else m)
                 (blob_mounts (db example_world)))"
    by (rule c2 [THEN conjunct2, THEN conjunct2, THEN conjunct2, THEN conjunct2,
          THEN conjunct1])
  with q f have ok: "fst ?R = None"
    and all: "blob_mounts (db (snd ?R)) =
            filter (\<lambda>m. \<not> sweep_where (ID example_repo) (timeNow example_janitor 2) m)
              (map (\<lambda>m. if mount_RepositoryID m = ID example_repo
                             \<and> mount_is_referenced (db example_world) m
                           then m\<lparr>CanBeDeletedAt := None\<rparr>
                         else if mount_RepositoryID m = ID example_repo \<and> CanBeDeletedAt m = None
                           then m\<lparr>CanBeDeletedAt :=
                             Some (timeNow example_janitor 1 + 30 * Minute)\<rparr>
                         else m)
                 (blob_mounts (db example_world)))"
    by blast+
  have rows: "blob_mounts (db (snd ?R)) =
        [\<lparr>mount_BlobID = 1, mount_RepositoryID = 1, CanBeDeletedAt = None\<rparr>,
         \<lparr>mount_BlobID = 2, mount_RepositoryID = 1, CanBeDeletedAt = None\<rparr>,
         \<lparr>mount_BlobID = 4, mount_RepositoryID = 1, CanBeDeletedAt = Some 1800000030000\<rparr>]"
    unfolding all
    by (simp add: dbw example_db_def example_repo_ID example_janitor_simps
        mount_is_referenced_def sweep_where_def sql_less_def Minute_def Second_def)
  from inv i have i': "mount_before_reference (db (snd ?R))"
    by (rule mp)
  from q f m r reset ok rows i i' show ?thesis
    by (intro conjI)
qed

text \<open>
  What a run that succeeds has marked and rescheduled. The run has chosen a repository; the
  mark statement has set \<^verbatim>\<open>can_be_deleted_at\<close> to the clock reading of the mark step plus
  30 minutes on exactly the blob mounts of that repository that were unmarked and
  unreferenced: every row of \<^verbatim>\<open>blob_mounts\<close> after the run is a row from before the run,
  reset to \<^verbatim>\<open>NULL\<close> when it is a referenced row of the repository, marked when it is an
  unmarked and unreferenced row of the repository, and unchanged otherwise. The run sets
  \<^verbatim>\<open>next_blob_mount_sweep_at\<close> of the repository to the clock reading of the last step
  plus one hour. When the clock reading of the sweep step is not later than the reading of
  the mark step plus 30 minutes, as when all the readings of the run are one and the same
  instant, every blob mount marked during the run is still there after the run.
\<close>

lemma sweep_marks_and_reschedules:
  assumes "SweepBlobMountsInNextRepo j w = (None, w')"
  shows "\<exists>repo :: Repository.
      blobMountSweepSearchQuery (db w) (timeNow j 0) = Some repo
    \<and> (\<forall>m' \<in> set (blob_mounts (db w')). \<exists>m \<in> set (blob_mounts (db w)).
          m' = (if mount_RepositoryID m = ID repo \<and> mount_is_referenced (db w) m
                  then m\<lparr>CanBeDeletedAt := None\<rparr>
                else if mount_RepositoryID m = ID repo \<and> CanBeDeletedAt m = None
                  then m\<lparr>CanBeDeletedAt := Some (timeNow j 1 + 30 * Minute)\<rparr>
                else m))
    \<and> repos (db w') =
        map (\<lambda>r. if ID r = ID repo
                  then r\<lparr>NextBlobMountSweepAt := Some (timeNow j 3 + Hour)\<rparr> else r)
          (repos (db w))
    \<and> (timeNow j 2 \<le> timeNow j 1 + 30 * Minute \<longrightarrow>
        (\<forall>m \<in> set (blob_mounts (db w)).
           mount_RepositoryID m = ID repo \<and> CanBeDeletedAt m = None
           \<and> \<not> mount_is_referenced (db w) m \<longrightarrow>
             m\<lparr>CanBeDeletedAt := Some (timeNow j 1 + 30 * Minute)\<rparr> \<in> set (blob_mounts (db w'))))"
proof -
  obtain repo0 returnErr d' where body: "sweep_body j (db w) = (repo0, returnErr, d')"
    by (cases "sweep_body j (db w)")
  have "fst (SweepBlobMountsInNextRepo j w) = None" using assms by simp
  then have ok: "returnErr = None"
    by (simp add: Sweep_success_iff [OF body])
  have db': "db w' = d'"
    using Sweep_db [OF body] assms by simp
  let ?t1 = "timeNow j 1 + 30 * Minute"
  let ?both = "\<lambda>(repo :: Repository) m.
      if mount_RepositoryID m = ID repo \<and> mount_is_referenced (db w) m
        then m\<lparr>CanBeDeletedAt := None\<rparr>
      else if mount_RepositoryID m = ID repo \<and> CanBeDeletedAt m = None
        then m\<lparr>CanBeDeletedAt := Some ?t1\<rparr>
      else m"
  show ?thesis
  proof (cases j "db w" rule: sweep_body_cases)
    case (success repo n d3)
    let ?d2 = "blobMountUnmarkQuery (ID repo) (blobMountMarkQuery (ID repo) ?t1 (db w))"
    from success body have d': "d' = blobMountSweepDoneQuery (ID repo) (timeNow j 3 + 1 * Hour) d3"
      by auto
    have mounts': "blob_mounts (db w') =
        filter (\<lambda>m. \<not> sweep_where (ID repo) (timeNow j 2) m) (blob_mounts ?d2)"
      by (simp add: db' d' sweep_Inr(3) [OF success(6)])
    have d2: "blob_mounts ?d2 = map (?both repo) (blob_mounts (db w))"
      by (rule mark_then_unmark)
    have rows: "\<forall>m' \<in> set (blob_mounts (db w')). \<exists>m \<in> set (blob_mounts (db w)).
        m' = ?both repo m"
    proof
      fix m' assume "m' \<in> set (blob_mounts (db w'))"
      then have "m' \<in> set (map (?both repo) (blob_mounts (db w)))"
        unfolding mounts' d2 by simp
      then show "\<exists>m \<in> set (blob_mounts (db w)). m' = ?both repo m"
        unfolding set_map by (rule imageE) blast
    qed
    have resched: "repos (db w') =
        map (\<lambda>r. if ID r = ID repo
                  then r\<lparr>NextBlobMountSweepAt := Some (timeNow j 3 + Hour)\<rparr> else r)
          (repos (db w))"
      by (simp add: db' d' blobMountSweepDoneQuery_def sweep_Inr(2) [OF success(6)])
    have marked: "m\<lparr>CanBeDeletedAt := Some ?t1\<rparr> \<in> set (blob_mounts (db w'))"
      if clock: "timeNow j 2 \<le> ?t1" and m: "m \<in> set (blob_mounts (db w))"
        and c: "mount_RepositoryID m = ID repo" "CanBeDeletedAt m = None"
          "\<not> mount_is_referenced (db w) m" for m
    proof -
      have "?both repo m = m\<lparr>CanBeDeletedAt := Some ?t1\<rparr>"
        using c by simp
      moreover from m have "?both repo m \<in> set (map (?both repo) (blob_mounts (db w)))"
        unfolding set_map by (rule imageI)
      ultimately have "m\<lparr>CanBeDeletedAt := Some ?t1\<rparr> \<in> set (blob_mounts ?d2)"
        unfolding d2 by (simp only:)
      moreover have "\<not> sweep_where (ID repo) (timeNow j 2) (m\<lparr>CanBeDeletedAt := Some ?t1\<rparr>)"
        using clock by (simp add: sweep_where_def sql_less_def)
      ultimately show ?thesis
        unfolding mounts' by simp
    qed
    have last: "timeNow j 2 \<le> ?t1 \<longrightarrow>
        (\<forall>m \<in> set (blob_mounts (db w)).
           mount_RepositoryID m = ID repo \<and> CanBeDeletedAt m = None
           \<and> \<not> mount_is_referenced (db w) m \<longrightarrow>
             m\<lparr>CanBeDeletedAt := Some ?t1\<rparr> \<in> set (blob_mounts (db w')))"
      using marked by (intro impI ballI) (elim conjE)
    from success(2) rows resched last show ?thesis
      by (intro exI [of _ repo] conjI)
  next
    case (search_failed err)
    with body ok show ?thesis by auto
  next
    case no_rows
    with body ok show ?thesis by auto
  next
    case (mark_failed repo err)
    with body ok show ?thesis by auto
  next
    case (unmark_failed repo err)
    with body ok show ?thesis by auto
  next
    case (sweep_failed repo err)
    with body ok show ?thesis by auto
  next
    case (rows_affected_failed repo err n d3)
    with body ok show ?thesis by auto
  next
    case (done_failed repo err n d3)
    with body ok show ?thesis by auto
  qed
qed

lemma example_run:
  "SweepBlobMountsInNextRepo example_janitor example_world = (None, example_world_after)"
  by (simp add: SweepBlobMountsInNextRepo_def example_world_def example_body
      example_world_after_def blobMountSweepDoneQuery_def)
     (simp add: example_db_def example_repo_def)

lemma sweep_marks_and_reschedules_example:
  "SweepBlobMountsInNextRepo example_janitor example_world = (None, example_world_after)
   \<and> timeNow example_janitor 2 \<le> timeNow example_janitor 1 + 30 * Minute
   \<and> \<lparr>mount_BlobID = 4, mount_RepositoryID = 1, CanBeDeletedAt = None\<rparr>
        \<in> set (blob_mounts (db example_world))
   \<and> \<not> mount_is_referenced (db example_world)
         \<lparr>mount_BlobID = 4, mount_RepositoryID = 1, CanBeDeletedAt = None\<rparr>
   \<and> \<lparr>mount_BlobID = 4, mount_RepositoryID = 1, CanBeDeletedAt = Some 1800000030000\<rparr>
        \<in> set (blob_mounts (db example_world_after))
   \<and> map NextBlobMountSweepAt (repos (db example_world_after)) = [Some 3600000030000]"
proof -
  let ?m = "\<lparr>mount_BlobID = 4, mount_RepositoryID = 1, CanBeDeletedAt = None\<rparr>"
  have clock: "timeNow example_janitor 2 \<le> timeNow example_janitor 1 + 30 * Minute"
    by (simp add: example_janitor_simps Minute_def Second_def)
  have m: "?m \<in> set (blob_mounts (db example_world))"
    and u: "\<not> mount_is_referenced (db example_world) ?m"
    by (simp_all add: example_world_def example_db_def mount_is_referenced_def)
  have dbw: "db example_world = example_db"
    by (simp add: example_world_def)
  obtain repo :: Repository
    where s: "blobMountSweepSearchQuery (db example_world) (timeNow example_janitor 0) = Some repo"
    and r: "repos (db example_world_after) =
        map (\<lambda>r. if ID r = ID repo
                  then r\<lparr>NextBlobMountSweepAt := Some (timeNow example_janitor 3 + Hour)\<rparr>
                  else r)
          (repos (db example_world))"
    and k: "timeNow example_janitor 2 \<le> timeNow example_janitor 1 + 30 * Minute \<longrightarrow>
        (\<forall>m \<in> set (blob_mounts (db example_world)).
           mount_RepositoryID m = ID repo \<and> CanBeDeletedAt m = None
           \<and> \<not> mount_is_referenced (db example_world) m \<longrightarrow>
             m\<lparr>CanBeDeletedAt := Some (timeNow example_janitor 1 + 30 * Minute)\<rparr>
               \<in> set (blob_mounts (db example_world_after)))"
    using sweep_marks_and_reschedules [OF example_run] by blast
  from s have repo: "repo = example_repo"
    by (simp add: dbw example_janitor_simps example_search)
  from k clock have "\<forall>m \<in> set (blob_mounts (db example_world)).
           mount_RepositoryID m = ID repo \<and> CanBeDeletedAt m = None
           \<and> \<not> mount_is_referenced (db example_world) m \<longrightarrow>
             m\<lparr>CanBeDeletedAt := Some (timeNow example_janitor 1 + 30 * Minute)\<rparr>
               \<in> set (blob_mounts (db example_world_after))"
    by (rule mp)
  from bspec [OF this m] u
  have "?m\<lparr>CanBeDeletedAt := Some (timeNow example_janitor 1 + 30 * Minute)\<rparr>
      \<in> set (blob_mounts (db example_world_after))"
    by (simp add: repo example_repo_ID)
  then have kept: "\<lparr>mount_BlobID = 4, mount_RepositoryID = 1, CanBeDeletedAt = Some 1800000030000\<rparr>
      \<in> set (blob_mounts (db example_world_after))"
    by (simp add: example_janitor_simps Minute_def Second_def)
  have nxt: "map NextBlobMountSweepAt (repos (db example_world_after)) = [Some 3600000030000]"
    unfolding r
    by (simp add: repo dbw example_db_def example_repo_def example_janitor_simps Hour_def
        Minute_def Second_def)
  from example_run clock m u kept nxt show ?thesis
    by (intro conjI)
qed

text \<open>A run during which the clock advances by 31 minutes between the mark step and the sweep step.\<close>

lemma slow_janitor_simps:
  "timeNow slow_janitor 0 = 30000" "timeNow slow_janitor (Suc 0) = 30000"
  "timeNow slow_janitor 2 = 1860000030000" "timeNow slow_janitor 3 = 1860000030000"
  "fails slow_janitor s = None"
  by (simp_all add: slow_janitor_def Minute_def Second_def)

lemma slow_body:
  "sweep_body slow_janitor example_db =
     (example_repo, None,
      blobMountSweepDoneQuery 1 5460000030000
        (example_db\<lparr>blob_mounts :=
          [\<lparr>mount_BlobID = 1, mount_RepositoryID = 1, CanBeDeletedAt = None\<rparr>,
           \<lparr>mount_BlobID = 2, mount_RepositoryID = 1, CanBeDeletedAt = None\<rparr>]\<rparr>))"
  by (simp add: sweep_body_def SelectOne_search_def slow_janitor_simps example_repo_ID
      example_search example_mark example_unmark example_sweep Minute_def Second_def Hour_def
      Let_def)

text \<open>
  C5. In one run, the mark statement sets \<^verbatim>\<open>can_be_deleted_at\<close> to now plus 30 minutes on
  the unmarked and unreferenced blob mounts of the repository, and the sweep statement of
  the same run is not to delete a blob mount that this run has marked: by the comments in
  \<^verbatim>\<open>SweepBlobMountsInNextRepo\<close>, the sweep only touches what the previous sweep has marked.
  The function reads the clock anew for the mark step and for the sweep step. Here the clock
  advances by 31 minutes between the two readings and no statement fails: blob mount 4 of
  repository 1 is unmarked and unreferenced before the run, the mark statement of the run
  gives it the mark 30000 plus 30 minutes, and the sweep statement of the same run, at 30000
  plus 31 minutes, deletes it; the run succeeds.
\<close>

theorem sweep_deletes_mount_marked_in_same_run:
  "timeNow slow_janitor 1 = 30000 \<and> timeNow slow_janitor 2 = 30000 + 31 * Minute
   \<and> (\<forall>s. fails slow_janitor s = None)
   \<and> \<lparr>mount_BlobID = 4, mount_RepositoryID = 1, CanBeDeletedAt = None\<rparr>
        \<in> set (blob_mounts (db example_world))
   \<and> \<not> mount_is_referenced (db example_world)
         \<lparr>mount_BlobID = 4, mount_RepositoryID = 1, CanBeDeletedAt = None\<rparr>
   \<and> blob_mounts (blobMountMarkQuery 1 (timeNow slow_janitor 1 + 30 * Minute) (db example_world)) ! 2
        = \<lparr>mount_BlobID = 4, mount_RepositoryID = 1, CanBeDeletedAt = Some 1800000030000\<rparr>
   \<and> fst (SweepBlobMountsInNextRepo slow_janitor example_world) = None
   \<and> blob_mounts (db (snd (SweepBlobMountsInNextRepo slow_janitor example_world))) =
        [\<lparr>mount_BlobID = 1, mount_RepositoryID = 1, CanBeDeletedAt = None\<rparr>,
         \<lparr>mount_BlobID = 2, mount_RepositoryID = 1, CanBeDeletedAt = None\<rparr>]
   \<and> \<not> has_mount (db (snd (SweepBlobMountsInNextRepo slow_janitor example_world))) 4 1"
proof -
  have dbw: "db example_world = example_db"
    by (simp add: example_world_def)
  have clock: "timeNow slow_janitor 1 = 30000" "timeNow slow_janitor 2 = 30000 + 31 * Minute"
    by (simp_all add: slow_janitor_simps Minute_def Second_def)
  have f: "\<forall>s. fails slow_janitor s = None"
    by (simp add: slow_janitor_simps)
  have m: "\<lparr>mount_BlobID = 4, mount_RepositoryID = 1, CanBeDeletedAt = None\<rparr>
        \<in> set (blob_mounts (db example_world))"
    and u: "\<not> mount_is_referenced (db example_world)
         \<lparr>mount_BlobID = 4, mount_RepositoryID = 1, CanBeDeletedAt = None\<rparr>"
    by (simp_all add: dbw example_db_def mount_is_referenced_def)
  have marked: "blob_mounts (blobMountMarkQuery 1 (timeNow slow_janitor 1 + 30 * Minute)
        (db example_world)) ! 2
        = \<lparr>mount_BlobID = 4, mount_RepositoryID = 1, CanBeDeletedAt = Some 1800000030000\<rparr>"
    by (simp add: dbw example_mark slow_janitor_simps Minute_def Second_def)
  have ok: "fst (SweepBlobMountsInNextRepo slow_janitor example_world) = None"
    and rows: "blob_mounts (db (snd (SweepBlobMountsInNextRepo slow_janitor example_world))) =
        [\<lparr>mount_BlobID = 1, mount_RepositoryID = 1, CanBeDeletedAt = None\<rparr>,
         \<lparr>mount_BlobID = 2, mount_RepositoryID = 1, CanBeDeletedAt = None\<rparr>]"
    by (simp_all add: SweepBlobMountsInNextRepo_def dbw slow_body)
  have gone: "\<not> has_mount (db (snd (SweepBlobMountsInNextRepo slow_janitor example_world))) 4 1"
    unfolding has_mount_def rows by simp
  from clock f m u marked ok rows gone show ?thesis
    by (intro conjI)
qed

text \<open>
  C6. When no repository is due, \<^verbatim>\<open>SweepBlobMountsInNextRepo\<close> returns \<^verbatim>\<open>sql.ErrNoRows\<close>
  itself and changes nothing, so neither counter moves. When it returns no error, the
  success counter is one higher and the failure counter is unchanged. When it returns
  \<^verbatim>\<open>sql.ErrNoRows\<close>, both counters are unchanged. When it returns any other error, the
  failure counter is one higher, the success counter is unchanged, and the error is the
  error of the statement that failed, wrapped with the full name of the repository chosen by
  the search (of the zero repository when the search itself failed). A statement that is
  refused always makes the run return an error.
\<close>

theorem sweep_reports_outcome:
  fixes j :: Janitor and w :: World
  shows
  "(fails j SearchStmt = None
      \<and> (\<forall>r \<in> set (repos (db w)). \<not> search_where (db w) (timeNow j 0) r) \<longrightarrow>
        SweepBlobMountsInNextRepo j w = (Some ErrNoRows, w))
   \<and> (fst (SweepBlobMountsInNextRepo j w) = None \<longrightarrow>
        sweepBlobMountsSuccessCounter (snd (SweepBlobMountsInNextRepo j w)) =
          sweepBlobMountsSuccessCounter w + 1
        \<and> sweepBlobMountsFailedCounter (snd (SweepBlobMountsInNextRepo j w)) =
          sweepBlobMountsFailedCounter w)
   \<and> (fst (SweepBlobMountsInNextRepo j w) = Some ErrNoRows \<longrightarrow>
        sweepBlobMountsSuccessCounter (snd (SweepBlobMountsInNextRepo j w)) =
          sweepBlobMountsSuccessCounter w
        \<and> sweepBlobMountsFailedCounter (snd (SweepBlobMountsInNextRepo j w)) =
          sweepBlobMountsFailedCounter w)
   \<and> (\<forall>e. fst (SweepBlobMountsInNextRepo j w) = Some e \<and> e \<noteq> ErrNoRows \<longrightarrow>
        sweepBlobMountsFailedCounter (snd (SweepBlobMountsInNextRepo j w)) =
          sweepBlobMountsFailedCounter w + 1
        \<and> sweepBlobMountsSuccessCounter (snd (SweepBlobMountsInNextRepo j w)) =
          sweepBlobMountsSuccessCounter w
        \<and> (\<exists>err s. fails j s = Some err \<and> err \<noteq> ErrNoRows
             \<and> e = WhileSweeping
                   (FullName (case SelectOne_search j (db w) of
                                Inr repo \<Rightarrow> repo
                              | Inl _ \<Rightarrow> zero_Repository))
                   err))
   \<and> ((\<exists>s. fails j s \<noteq> None) \<longrightarrow> fst (SweepBlobMountsInNextRepo j w) \<noteq> None)"
    (is "?none \<and> ?ok \<and> ?idle \<and> ?failed \<and> ?refused")
proof -
  let ?R = "SweepBlobMountsInNextRepo j w"
  let ?name = "FullName (case SelectOne_search j (db w) of
      Inr repo \<Rightarrow> repo | Inl _ \<Rightarrow> zero_Repository)"
  have fail: "?ok \<and> ?idle \<and> ?failed \<and> ?refused"
    if body: "sweep_body j (db w) = (repo, Some err, d')"
      and s: "fails j s = Some err"
      and name: "?name = FullName repo"
    for repo err d' s
  proof (cases "err = ErrNoRows")
    case True
    then have "?R = (Some ErrNoRows, w\<lparr>db := d'\<rparr>)"
      by (simp add: Sweep_unfold [OF body])
    then show ?thesis by simp
  next
    case False
    then have R: "?R = (Some (WhileSweeping (FullName repo) err),
        w\<lparr>db := d', sweepBlobMountsFailedCounter := sweepBlobMountsFailedCounter w + 1\<rparr>)"
      by (simp add: Sweep_unfold [OF body])
    have "\<exists>err' s. fails j s = Some err' \<and> err' \<noteq> ErrNoRows
        \<and> WhileSweeping (FullName repo) err = WhileSweeping ?name err'"
      using s False name by (intro exI [of _ err] exI [of _ s]) simp
    then show ?thesis
      unfolding R by simp
  qed
  have none: ?none
  proof (intro impI, elim conjE)
    assume s: "fails j SearchStmt = None"
      and "\<forall>r \<in> set (repos (db w)). \<not> search_where (db w) (timeNow j 0) r"
    then have "blobMountSweepSearchQuery (db w) (timeNow j 0) = None"
      by (simp add: search_None)
    with s have "sweep_body j (db w) = (zero_Repository, Some ErrNoRows, db w)"
      by (simp add: sweep_body_def SelectOne_search_def)
    then show "?R = (Some ErrNoRows, w)"
      by (simp add: Sweep_unfold)
  qed
  have rest: "?ok \<and> ?idle \<and> ?failed \<and> ?refused"
  proof (cases j "db w" rule: sweep_body_cases)
    case (search_failed err)
    then have "SelectOne_search j (db w) = Inl err"
      by (simp add: SelectOne_search_def)
    then have "?name = FullName zero_Repository" by simp
    with search_failed show ?thesis by (intro fail)
  next
    case no_rows
    then have "?R = (Some ErrNoRows, w)"
      by (simp add: Sweep_unfold)
    then show ?thesis by simp
  next
    case (mark_failed repo err)
    then have "SelectOne_search j (db w) = Inr repo"
      by (simp add: SelectOne_search_def)
    then have "?name = FullName repo" by simp
    with mark_failed show ?thesis by (intro fail)
  next
    case (unmark_failed repo err)
    then have "SelectOne_search j (db w) = Inr repo"
      by (simp add: SelectOne_search_def)
    then have "?name = FullName repo" by simp
    with unmark_failed show ?thesis by (intro fail)
  next
    case (sweep_failed repo err)
    then have "SelectOne_search j (db w) = Inr repo"
      by (simp add: SelectOne_search_def)
    then have "?name = FullName repo" by simp
    with sweep_failed show ?thesis by (intro fail)
  next
    case (rows_affected_failed repo err n d3)
    then have "SelectOne_search j (db w) = Inr repo"
      by (simp add: SelectOne_search_def)
    then have "?name = FullName repo" by simp
    with rows_affected_failed show ?thesis by (intro fail)
  next
    case (done_failed repo err n d3)
    then have "SelectOne_search j (db w) = Inr repo"
      by (simp add: SelectOne_search_def)
    then have "?name = FullName repo" by simp
    with done_failed show ?thesis by (intro fail)
  next
    case (success repo n d3)
    have all: "fails j s = None" for s
      by (cases s) (simp_all add: success)
    have "?R = (None,
        w\<lparr>db := blobMountSweepDoneQuery (ID repo) (timeNow j 3 + 1 * Hour) d3,
          sweepBlobMountsSuccessCounter := sweepBlobMountsSuccessCounter w + 1\<rparr>)"
      by (simp add: Sweep_unfold [OF success(9)])
    then show ?thesis
      by (simp add: all)
  qed
  from none rest show ?thesis by (rule conjI)
qed

lemma failing_janitor_simps:
  "timeNow failing_janitor k = 30000"
  "fails failing_janitor SearchStmt = None" "fails failing_janitor MarkStmt = None"
  "fails failing_janitor UnmarkStmt = Some (Failure ''connection reset'')"
  by (simp_all add: failing_janitor_def)

lemma failing_run:
  "SweepBlobMountsInNextRepo failing_janitor example_world =
     (Some (WhileSweeping ''test1/foo'' (Failure ''connection reset'')),
      example_world
        \<lparr>db := blobMountMarkQuery 1 1800000030000 example_db,
         sweepBlobMountsFailedCounter := 1\<rparr>)"
proof -
  have "sweep_body failing_janitor example_db =
      (example_repo, Some (Failure ''connection reset''),
       blobMountMarkQuery 1 1800000030000 example_db)"
    by (simp add: sweep_body_def SelectOne_search_def failing_janitor_simps example_search
        example_repo_ID Minute_def Second_def)
  then show ?thesis
    by (simp add: SweepBlobMountsInNextRepo_def example_world_def FullName_def example_repo_def)
qed

lemma early_run:
  "SweepBlobMountsInNextRepo early_janitor example_world = (Some ErrNoRows, example_world)"
proof -
  have "blobMountSweepSearchQuery example_db 100 = None"
    by (simp add: example_db_def example_repo_def query_defs)
  then have "sweep_body early_janitor example_db = (zero_Repository, Some ErrNoRows, example_db)"
    by (simp add: sweep_body_def SelectOne_search_def early_janitor_def)
  then show ?thesis
    by (simp add: SweepBlobMountsInNextRepo_def example_world_def)
qed

theorem sweep_reports_outcome_witness:
  "fails early_janitor SearchStmt = None
   \<and> filter (search_where (db example_world) (timeNow early_janitor 0))
        (repos (db example_world)) = []
   \<and> SweepBlobMountsInNextRepo early_janitor example_world = (Some ErrNoRows, example_world)
   \<and> fst (SweepBlobMountsInNextRepo example_janitor example_world) = None
   \<and> sweepBlobMountsSuccessCounter (snd (SweepBlobMountsInNextRepo example_janitor example_world)) =
       sweepBlobMountsSuccessCounter example_world + 1
   \<and> fst (SweepBlobMountsInNextRepo failing_janitor example_world) =
       Some (WhileSweeping ''test1/foo'' (Failure ''connection reset''))
   \<and> WhileSweeping ''test1/foo'' (Failure ''connection reset'') \<noteq> ErrNoRows
   \<and> sweepBlobMountsFailedCounter (snd (SweepBlobMountsInNextRepo failing_janitor example_world)) =
       sweepBlobMountsFailedCounter example_world + 1"
proof -
  have h1: "fails early_janitor SearchStmt = None"
    and h2: "\<forall>r \<in> set (repos (db example_world)).
        \<not> search_where (db example_world) (timeNow early_janitor 0) r"
    by (simp_all add: early_janitor_def example_world_def example_db_def example_repo_def
        search_where_def sql_less_def)
  note early = sweep_reports_outcome [of early_janitor example_world, THEN conjunct1]
  from early h1 h2 have e: "SweepBlobMountsInNextRepo early_janitor example_world =
      (Some ErrNoRows, example_world)"
    by blast
  have ok: "fst (SweepBlobMountsInNextRepo example_janitor example_world) = None"
    by (simp add: example_run)
  note good = sweep_reports_outcome [of example_janitor example_world,
      THEN conjunct2, THEN conjunct1]
  from good ok have s: "sweepBlobMountsSuccessCounter
      (snd (SweepBlobMountsInNextRepo example_janitor example_world)) =
       sweepBlobMountsSuccessCounter example_world + 1"
    by blast
  have f: "fst (SweepBlobMountsInNextRepo failing_janitor example_world) =
       Some (WhileSweeping ''test1/foo'' (Failure ''connection reset''))"
    and n: "WhileSweeping ''test1/foo'' (Failure ''connection reset'') \<noteq> ErrNoRows"
    by (simp_all add: failing_run)
  note bad = sweep_reports_outcome [of failing_janitor example_world,
      THEN conjunct2, THEN conjunct2, THEN conjunct2, THEN conjunct1, THEN spec,
      of "WhileSweeping ''test1/foo'' (Failure ''connection reset'')"]
  from bad f n have c: "sweepBlobMountsFailedCounter
      (snd (SweepBlobMountsInNextRepo failing_janitor example_world)) =
       sweepBlobMountsFailedCounter example_world + 1"
    by blast
  from h2 have h3: "filter (search_where (db example_world) (timeNow early_janitor 0))
        (repos (db example_world)) = []"
    by (simp add: filter_empty_conv)
  from h1 h3 e ok s f n c show ?thesis
    by (intro conjI)
qed

text \<open>
  C1. The search statement is meant to skip every repository that holds a manifest with a
  validation error. Here a repository that was never swept (\<^verbatim>\<open>next_blob_mount_sweep_at\<close>
  is \<^verbatim>\<open>NULL\<close>) holds such a manifest, and the statement selects it all the same: in the
  \<^verbatim>\<open>WHERE\<close> clause \<^verbatim>\<open>AND\<close> binds tighter than \<^verbatim>\<open>OR\<close>, so the exclusion applies only
  to repositories with a sweep time in the past. The run then marks the blob mount of that
  repository.
\<close>

theorem search_selects_repo_with_failed_manifest:
  "NextBlobMountSweepAt example_failed_repo = None
   \<and> ID example_failed_repo \<in> set (failed_manifest_repo_ids example_failed_db)
   \<and> blobMountSweepSearchQuery example_failed_db 30000 = Some example_failed_repo
   \<and> fst (SweepBlobMountsInNextRepo example_janitor
        \<lparr>db = example_failed_db, sweepBlobMountsSuccessCounter = 0,
         sweepBlobMountsFailedCounter = 0\<rparr>) = None
   \<and> blob_mounts (db (snd (SweepBlobMountsInNextRepo example_janitor
        \<lparr>db = example_failed_db, sweepBlobMountsSuccessCounter = 0,
         sweepBlobMountsFailedCounter = 0\<rparr>))) =
       [\<lparr>mount_BlobID = 1, mount_RepositoryID = 1, CanBeDeletedAt = Some 1800000030000\<rparr>]"
proof -
  have s: "blobMountSweepSearchQuery example_failed_db 30000 = Some example_failed_repo"
    by (simp add: example_failed_db_def example_failed_repo_def query_defs)
  have m: "blobMountMarkQuery 1 1800000030000 example_failed_db =
      example_failed_db\<lparr>blob_mounts :=
        [\<lparr>mount_BlobID = 1, mount_RepositoryID = 1, CanBeDeletedAt = Some 1800000030000\<rparr>]\<rparr>"
    by (simp add: example_failed_db_def query_defs)
  have u: "blobMountUnmarkQuery 1 (example_failed_db\<lparr>blob_mounts :=
        [\<lparr>mount_BlobID = 1, mount_RepositoryID = 1, CanBeDeletedAt = Some 1800000030000\<rparr>]\<rparr>) =
      example_failed_db\<lparr>blob_mounts :=
        [\<lparr>mount_BlobID = 1, mount_RepositoryID = 1, CanBeDeletedAt = Some 1800000030000\<rparr>]\<rparr>"
    by (simp add: example_failed_db_def query_defs)
  have d: "blobMountSweepMarkedQuery 1 30000 (example_failed_db\<lparr>blob_mounts :=
        [\<lparr>mount_BlobID = 1, mount_RepositoryID = 1, CanBeDeletedAt = Some 1800000030000\<rparr>]\<rparr>) =
      Inr (0, example_failed_db\<lparr>blob_mounts :=
        [\<lparr>mount_BlobID = 1, mount_RepositoryID = 1, CanBeDeletedAt = Some 1800000030000\<rparr>]\<rparr>)"
    by (simp add: example_failed_db_def query_defs Let_def)
  have body: "sweep_body example_janitor example_failed_db =
      (example_failed_repo, None,
       blobMountSweepDoneQuery 1 3600000030000 (example_failed_db\<lparr>blob_mounts :=
        [\<lparr>mount_BlobID = 1, mount_RepositoryID = 1, CanBeDeletedAt = Some 1800000030000\<rparr>]\<rparr>))"
    by (simp add: sweep_body_def SelectOne_search_def example_janitor_simps example_repo_ID
        s m u d Minute_def Second_def Hour_def)
  have "NextBlobMountSweepAt example_failed_repo = None"
    "ID example_failed_repo \<in> set (failed_manifest_repo_ids example_failed_db)"
    by (simp_all add: example_failed_repo_def example_failed_db_def failed_manifest_repo_ids_def)
  with s show ?thesis
    by (simp add: SweepBlobMountsInNextRepo_def body)
qed

end
